theory Spec2Isabelle
  imports Complex_Main "HOL-Library.Log_Nat"
begin

section \<open>Python strings\<close>

text \<open>
  A Python \<open>str\<close> is modelled by the bytes of its UTF-8 encoding. The keywords and
  prefixes the scripts look for are ASCII, and no byte of a multi-byte UTF-8 sequence is
  an ASCII byte, so searching the bytes finds exactly the occurrences that searching the
  code points finds.
\<close>

text \<open>
  \<open>str.lower\<close> on one byte: the letters \<open>A\<close> to \<open>Z\<close> move to \<open>a\<close> to \<open>z\<close>, all other
  bytes stay. (Python also lowers letters outside ASCII; none of their lower-case forms
  contains a letter of the keywords the router searches for.)
\<close>

definition lower_char :: "char \<Rightarrow> char" where
  "lower_char c =
     (let n = (of_char c :: nat)
      in if 65 \<le> n \<and> n \<le> 90 then char_of (n + 32) else c)"

definition lower :: "string \<Rightarrow> string" where
  "lower s = map lower_char s"

text \<open>\<open>s.startswith(p)\<close>\<close>

fun startswith :: "string \<Rightarrow> string \<Rightarrow> bool" where
  "startswith s [] = True"
| "startswith [] (p # ps) = False"
| "startswith (c # cs) (p # ps) = (c = p \<and> startswith cs ps)"

text \<open>\<open>needle in hay\<close> for two strings: some suffix of \<open>hay\<close> starts with \<open>needle\<close>.\<close>

fun py_in :: "string \<Rightarrow> string \<Rightarrow> bool" where
  "py_in needle [] = (needle = [])"
| "py_in needle (c # cs) = (startswith (c # cs) needle \<or> py_in needle cs)"

section \<open>LGtest.py: the feedback router\<close>

datatype node =
    START
  | Develop_plot
  | Create_characters
  | Develop_theme
  | Write_screenplay
  | Director_review
  | Critic_review
  | Market_analysis
  | Handle_user_feedback
  | END

text \<open>
  \<open>route_feedback\<close> reads only the key \<open>user_feedback\<close> of the state;
  \<open>state.get('user_feedback', [])\<close> is the empty list when the key is absent.
\<close>

definition get_user_feedback :: "string list option \<Rightarrow> string list" where
  "get_user_feedback uf = (case uf of None \<Rightarrow> [] | Some fs \<Rightarrow> fs)"

definition route_latest :: "string \<Rightarrow> node" where
  "route_latest latest_feedback =
     (if py_in ''plot'' latest_feedback then Develop_plot
      else if py_in ''character'' latest_feedback then Create_characters
      else if py_in ''theme'' latest_feedback then Develop_theme
      else if py_in ''screenplay'' latest_feedback then Write_screenplay
      else END)"


definition route_feedback_of :: "string list \<Rightarrow> node" where
  "route_feedback_of feedback =
     (if feedback = [] then END else route_latest (lower (last feedback)))"

section \<open>LGtest.py: the movie workflow\<close>

subsection \<open>Components and state\<close>

record Character =
  name :: string
  role :: string
  background :: string
  arc :: string
  personality :: string

record Plot =
  premise :: string
  synopsis :: string
  setting :: string
  turning_points :: "string list"
  resolution :: string

record Theme =
  main_theme :: string
  moral :: string
  subthemes :: "string list"

record Screenplay =
  acts :: "string list"
  key_scenes :: "string list"
  dialogue :: "string list"

record MarketAnalysis =
  target_audience :: "string list"
  genre_positioning :: string
  unique_selling_points :: "string list"
  comparisons :: "string list"

text \<open>
  \<open>MovieState\<close> is a typed dictionary: a key is present or absent, and the defaults
  written in the class body are not applied to a dictionary. A field is \<open>None\<close> when the
  key is absent. The same record type holds the partial update a node returns (the keys
  of the returned dictionary are the fields that are not \<open>None\<close>).
\<close>

record MovieState =
  messages :: "string list option"
  concept :: "string option"
  plot :: "Plot option"
  characters :: "Character list option"
  theme :: "Theme option"
  screenplay :: "Screenplay option"
  market_analysis :: "MarketAnalysis option"
  director_notes :: "string list option"
  critic_feedback :: "string list option"
  user_feedback :: "string list option"

definition no_update :: MovieState where
  "no_update =
     \<lparr>messages = None, concept = None, plot = None, characters = None, theme = None,
      screenplay = None, market_analysis = None, director_notes = None,
      critic_feedback = None, user_feedback = None\<rparr>"

text \<open>\<open>{"concept": c}\<close>, the input of the example at the end of the script.\<close>

definition initial_state :: "string \<Rightarrow> MovieState" where
  "initial_state c = no_update\<lparr>concept := Some c\<rparr>"

definition route_feedback :: "MovieState \<Rightarrow> node" where
  "route_feedback state = route_feedback_of (get_user_feedback (user_feedback state))"

subsection \<open>The language model\<close>

text \<open>
  The model client is outside the script. A call takes the request (the prompt of the
  node, given by the values the node writes into it) and either raises or answers; its
  answers may differ from call to call, so a call also takes and returns the state \<open>'w\<close>
  of the world outside.
\<close>

datatype error =
    KeyError string
  | ModelCallFailed string
  | NotInterrupted

datatype request =
    PlotRequest string
  | CharactersRequest string
  | ThemeRequest string "Character list"
  | ScreenplayRequest Plot "Character list" Theme
  | DirectorRequest Screenplay
  | CriticRequest Plot Theme Screenplay
  | MarketRequest string string "string list"

record 'w llm =
  plot_llm :: "'w \<Rightarrow> request \<Rightarrow> error + Plot \<times> 'w"
  character_llm :: "'w \<Rightarrow> request \<Rightarrow> error + Character list \<times> 'w"
  theme_llm :: "'w \<Rightarrow> request \<Rightarrow> error + Theme \<times> 'w"
  screenplay_llm :: "'w \<Rightarrow> request \<Rightarrow> error + Screenplay \<times> 'w"
  market_llm :: "'w \<Rightarrow> request \<Rightarrow> error + MarketAnalysis \<times> 'w"
  llm_invoke :: "'w \<Rightarrow> request \<Rightarrow> error + string \<times> 'w"

text \<open>\<open>state[key]\<close>: a \<open>KeyError\<close> when the key is absent.\<close>

definition getitem :: "string \<Rightarrow> 'a option \<Rightarrow> error + 'a" where
  "getitem key v = (case v of None \<Rightarrow> Inl (KeyError key) | Some x \<Rightarrow> Inr x)"

subsection \<open>Node functions\<close>

definition develop_plot :: "'w llm \<Rightarrow> 'w \<Rightarrow> MovieState \<Rightarrow> error + MovieState \<times> 'w" where
  "develop_plot L w state =
     (case getitem ''concept'' (concept state) of Inl e \<Rightarrow> Inl e
      | Inr c \<Rightarrow>
     (case plot_llm L w (PlotRequest c) of Inl e \<Rightarrow> Inl e
      | Inr (p, w') \<Rightarrow> Inr (no_update\<lparr>plot := Some p\<rparr>, w')))"

definition create_characters :: "'w llm \<Rightarrow> 'w \<Rightarrow> MovieState \<Rightarrow> error + MovieState \<times> 'w" where
  "create_characters L w state =
     (case getitem ''plot'' (plot state) of Inl e \<Rightarrow> Inl e
      | Inr p \<Rightarrow>
     (case character_llm L w (CharactersRequest (synopsis p)) of Inl e \<Rightarrow> Inl e
      | Inr (cs, w') \<Rightarrow> Inr (no_update\<lparr>characters := Some cs\<rparr>, w')))"

definition develop_theme :: "'w llm \<Rightarrow> 'w \<Rightarrow> MovieState \<Rightarrow> error + MovieState \<times> 'w" where
  "develop_theme L w state =
     (case getitem ''plot'' (plot state) of Inl e \<Rightarrow> Inl e
      | Inr p \<Rightarrow>
     (case getitem ''characters'' (characters state) of Inl e \<Rightarrow> Inl e
      | Inr cs \<Rightarrow>
     (case theme_llm L w (ThemeRequest (synopsis p) cs) of Inl e \<Rightarrow> Inl e
      | Inr (t, w') \<Rightarrow> Inr (no_update\<lparr>theme := Some t\<rparr>, w'))))"

definition write_screenplay :: "'w llm \<Rightarrow> 'w \<Rightarrow> MovieState \<Rightarrow> error + MovieState \<times> 'w" where
  "write_screenplay L w state =
     (case getitem ''plot'' (plot state) of Inl e \<Rightarrow> Inl e
      | Inr p \<Rightarrow>
     (case getitem ''characters'' (characters state) of Inl e \<Rightarrow> Inl e
      | Inr cs \<Rightarrow>
     (case getitem ''theme'' (theme state) of Inl e \<Rightarrow> Inl e
      | Inr t \<Rightarrow>
     (case screenplay_llm L w (ScreenplayRequest p cs t) of Inl e \<Rightarrow> Inl e
      | Inr (sp, w') \<Rightarrow> Inr (no_update\<lparr>screenplay := Some sp\<rparr>, w')))))"

definition director_review :: "'w llm \<Rightarrow> 'w \<Rightarrow> MovieState \<Rightarrow> error + MovieState \<times> 'w" where
  "director_review L w state =
     (case getitem ''screenplay'' (screenplay state) of Inl e \<Rightarrow> Inl e
      | Inr sp \<Rightarrow>
     (case llm_invoke L w (DirectorRequest sp) of Inl e \<Rightarrow> Inl e
      | Inr (content, w') \<Rightarrow> Inr (no_update\<lparr>director_notes := Some [content]\<rparr>, w')))"

definition critic_review :: "'w llm \<Rightarrow> 'w \<Rightarrow> MovieState \<Rightarrow> error + MovieState \<times> 'w" where
  "critic_review L w state =
     (case getitem ''plot'' (plot state) of Inl e \<Rightarrow> Inl e
      | Inr p \<Rightarrow>
     (case getitem ''theme'' (theme state) of Inl e \<Rightarrow> Inl e
      | Inr t \<Rightarrow>
     (case getitem ''screenplay'' (screenplay state) of Inl e \<Rightarrow> Inl e
      | Inr sp \<Rightarrow>
     (case llm_invoke L w (CriticRequest p t sp) of Inl e \<Rightarrow> Inl e
      | Inr (content, w') \<Rightarrow> Inr (no_update\<lparr>critic_feedback := Some [content]\<rparr>, w')))))"

definition market_analysis_node :: "'w llm \<Rightarrow> 'w \<Rightarrow> MovieState \<Rightarrow> error + MovieState \<times> 'w" where
  "market_analysis_node L w state =
     (case getitem ''plot'' (plot state) of Inl e \<Rightarrow> Inl e
      | Inr p \<Rightarrow>
     (case getitem ''theme'' (theme state) of Inl e \<Rightarrow> Inl e
      | Inr t \<Rightarrow>
     (case getitem ''critic_feedback'' (critic_feedback state) of Inl e \<Rightarrow> Inl e
      | Inr cf \<Rightarrow>
     (case market_llm L w (MarketRequest (synopsis p) (main_theme t) cf) of Inl e \<Rightarrow> Inl e
      | Inr (analysis, w') \<Rightarrow> Inr (no_update\<lparr>market_analysis := Some analysis\<rparr>, w')))))"

text \<open>\<open>handle_user_feedback\<close> is \<open>pass\<close>: it returns \<open>None\<close>, no key is written.\<close>

definition handle_user_feedback :: "'w llm \<Rightarrow> 'w \<Rightarrow> MovieState \<Rightarrow> error + MovieState \<times> 'w" where
  "handle_user_feedback L w state = Inr (no_update, w)"

subsection \<open>The graph\<close>

text \<open>\<open>workflow.add_node\<close>: the function of each node.\<close>

fun node_fn :: "node \<Rightarrow> 'w llm \<Rightarrow> 'w \<Rightarrow> MovieState \<Rightarrow> error + MovieState \<times> 'w" where
  "node_fn Develop_plot = develop_plot"
| "node_fn Create_characters = create_characters"
| "node_fn Develop_theme = develop_theme"
| "node_fn Write_screenplay = write_screenplay"
| "node_fn Director_review = director_review"
| "node_fn Critic_review = critic_review"
| "node_fn Market_analysis = market_analysis_node"
| "node_fn Handle_user_feedback = handle_user_feedback"
| "node_fn START = (\<lambda>L w state. Inr (no_update, w))"
| "node_fn END = (\<lambda>L w state. Inr (no_update, w))"

text \<open>\<open>workflow.add_edge\<close>, in the order of the script.\<close>

definition edges :: "(node \<times> node) list" where
  "edges =
     [(START, Develop_plot),
      (Develop_plot, Create_characters),
      (Create_characters, Develop_theme),
      (Develop_theme, Write_screenplay),
      (Write_screenplay, Director_review),
      (Director_review, Critic_review),
      (Critic_review, Market_analysis),
      (Market_analysis, Handle_user_feedback)]"

text \<open>
  \<open>workflow.add_conditional_edges("handle_user_feedback", route_feedback, {...})\<close>:
  the source node and the mapping from the router's answer to the next node.
\<close>

definition conditional_source :: node where
  "conditional_source = Handle_user_feedback"

definition path_map :: "(node \<times> node) list" where
  "path_map =
     [(Develop_plot, Develop_plot),
      (Create_characters, Create_characters),
      (Develop_theme, Develop_theme),
      (Write_screenplay, Write_screenplay),
      (END, END)]"

text \<open>\<open>workflow.compile(interrupt_before=['handle_user_feedback'])\<close>\<close>

definition interrupt_before :: "node list" where
  "interrupt_before = [Handle_user_feedback]"

subsection \<open>Merging an update into the state\<close>

text \<open>
  The state schema gives each key its merge rule. A key declared with a plain type keeps
  the last value written to it. A key declared \<open>Annotated[list, operator.add]\<close> is
  combined with \<open>operator.add\<close>: the written list is concatenated to the list already
  there (the empty list at the start). In \<open>MovieState\<close> only \<open>user_feedback\<close> is declared
  with \<open>operator.add\<close>; \<open>messages\<close> comes from \<open>MessagesState\<close> with a reducer that
  appends new messages.
\<close>

definition last_value :: "'a option \<Rightarrow> 'a option \<Rightarrow> 'a option" where
  "last_value old new = (case new of None \<Rightarrow> old | Some v \<Rightarrow> Some v)"

definition operator_add :: "'a list option \<Rightarrow> 'a list option \<Rightarrow> 'a list option" where
  "operator_add old new =
     (case new of None \<Rightarrow> old
      | Some v \<Rightarrow> Some ((case old of None \<Rightarrow> [] | Some xs \<Rightarrow> xs) @ v))"

definition merge_state :: "MovieState \<Rightarrow> MovieState \<Rightarrow> MovieState" where
  "merge_state state upd =
     \<lparr>messages = operator_add (messages state) (messages upd),
      concept = last_value (concept state) (concept upd),
      plot = last_value (plot state) (plot upd),
      characters = last_value (characters state) (characters upd),
      theme = last_value (theme state) (theme upd),
      screenplay = last_value (screenplay state) (screenplay upd),
      market_analysis = last_value (market_analysis state) (market_analysis upd),
      director_notes = last_value (director_notes state) (director_notes upd),
      critic_feedback = last_value (critic_feedback state) (critic_feedback upd),
      user_feedback = operator_add (user_feedback state) (user_feedback upd)\<rparr>"

subsection \<open>The engine\<close>

text \<open>
  Modelled from the spec: the engine that runs the compiled graph (\<open>graph.invoke\<close>, the
  suspension before \<open>handle_user_feedback\<close> and the resume call) is the graph library's,
  outside the script. The model follows sections 4.1, 5 and 6 of the specification: one
  node runs at a time, its update is merged into the state, the next node is the target
  of the node's edge (for the conditional edge, the node the router's answer is mapped
  to); the run pauses before a node listed in \<open>interrupt_before\<close> and ends at \<open>END\<close>.
  A resume call injects one feedback string into \<open>user_feedback\<close>, runs the node the run
  paused before and goes on from there. An error raised in a node aborts the run.
\<close>

datatype status = Running | Interrupted node | Finished

record snapshot =
  vals :: MovieState
  executed :: "node list"
  status :: status

definition successor :: "node \<Rightarrow> MovieState \<Rightarrow> node option" where
  "successor n state =
     (if n = conditional_source then map_of path_map (route_feedback state)
      else map_of edges n)"

fun rank :: "node \<Rightarrow> nat" where
  "rank START = 9"
| "rank Develop_plot = 8"
| "rank Create_characters = 7"
| "rank Develop_theme = 6"
| "rank Write_screenplay = 5"
| "rank Director_review = 4"
| "rank Critic_review = 3"
| "rank Market_analysis = 2"
| "rank Handle_user_feedback = 1"
| "rank END = 0"

function run_from :: "'w llm \<Rightarrow> node \<Rightarrow> 'w \<Rightarrow> snapshot \<Rightarrow> error + snapshot \<times> 'w" where
  "run_from L n w r =
     (if n = END then Inr (r\<lparr>status := Finished\<rparr>, w)
      else if n \<in> set interrupt_before then Inr (r\<lparr>status := Interrupted n\<rparr>, w)
      else
        (case node_fn n L w (vals r) of Inl e \<Rightarrow> Inl e
         | Inr (u, w') \<Rightarrow>
             (case successor n (merge_state (vals r) u) of
                None \<Rightarrow>
                  Inr (\<lparr>vals = merge_state (vals r) u, executed = executed r @ [n],
                        status = Finished\<rparr>, w')
              | Some m \<Rightarrow>
                  run_from L m w'
                    \<lparr>vals = merge_state (vals r) u, executed = executed r @ [n],
                     status = status r\<rparr>)))"
  by pat_completeness auto
termination
proof (relation "measure (\<lambda>(L, n, w, r). rank n)")
  fix L :: "'w llm" and n :: node and w :: 'w and r :: snapshot
    and x2 :: "MovieState \<times> 'w" and x :: MovieState and y :: 'w and m :: node
  assume "n \<notin> set interrupt_before"
    and "successor n (merge_state (vals r) x) = Some m"
  then have "rank m < rank n"
    by (cases n)
      (auto simp: successor_def interrupt_before_def conditional_source_def edges_def)
  then show "((L, m, y,
          \<lparr>vals = merge_state (vals r) x, executed = executed r @ [n], status = status r\<rparr>),
         L, n, w, r) \<in> measure (\<lambda>(L, n, w, r). rank n)"
    by simp
qed simp

text \<open>\<open>graph.invoke(initial_state)\<close>: the input is written to the state, the run starts
  at the target of the edge from \<open>START\<close>.\<close>

definition invoke :: "'w llm \<Rightarrow> 'w \<Rightarrow> MovieState \<Rightarrow> error + snapshot \<times> 'w" where
  "invoke L w input =
     (case map_of edges START of
        None \<Rightarrow> Inr (\<lparr>vals = merge_state no_update input, executed = [], status = Finished\<rparr>, w)
      | Some n \<Rightarrow>
          run_from L n w
            \<lparr>vals = merge_state no_update input, executed = [], status = Running\<rparr>)"

text \<open>
  The resume call with the feedback string \<open>f\<close>: \<open>{"user_feedback": [f]}\<close> is merged into
  the state, the node the run paused before runs (the interrupt is not taken again on
  it), and the run goes on at its successor. A run that is not paused cannot be resumed.
\<close>

definition resume :: "'w llm \<Rightarrow> 'w \<Rightarrow> snapshot \<Rightarrow> string \<Rightarrow> error + snapshot \<times> 'w" where
  "resume L w r f =
     (case status r of
        Running \<Rightarrow> Inl NotInterrupted
      | Finished \<Rightarrow> Inl NotInterrupted
      | Interrupted n \<Rightarrow>
          (let state = merge_state (vals r) (no_update\<lparr>user_feedback := Some [f]\<rparr>)
           in case node_fn n L w state of Inl e \<Rightarrow> Inl e
              | Inr (u, w') \<Rightarrow>
                  (case successor n (merge_state state u) of
                     None \<Rightarrow>
                       Inr (\<lparr>vals = merge_state state u, executed = executed r @ [n],
                             status = Finished\<rparr>, w')
                   | Some m \<Rightarrow>
                       run_from L m w'
                         \<lparr>vals = merge_state state u, executed = executed r @ [n],
                          status = Running\<rparr>)))"

text \<open>Several resume calls in a row, one feedback string each; the first error ends them.\<close>

fun resumes :: "'w llm \<Rightarrow> 'w \<Rightarrow> snapshot \<Rightarrow> string list \<Rightarrow> error + snapshot \<times> 'w" where
  "resumes L w r [] = Inr (r, w)"
| "resumes L w r (f # fs) =
     (case resume L w r f of Inl e \<Rightarrow> Inl e | Inr (r', w') \<Rightarrow> resumes L w' r' fs)"

text \<open>The model never raises: every call answers.\<close>

definition reliable :: "'w llm \<Rightarrow> bool" where
  "reliable L \<longleftrightarrow>
     (\<forall>w q. \<exists>a w'. plot_llm L w q = Inr (a, w')) \<and>
     (\<forall>w q. \<exists>a w'. character_llm L w q = Inr (a, w')) \<and>
     (\<forall>w q. \<exists>a w'. theme_llm L w q = Inr (a, w')) \<and>
     (\<forall>w q. \<exists>a w'. screenplay_llm L w q = Inr (a, w')) \<and>
     (\<forall>w q. \<exists>a w'. market_llm L w q = Inr (a, w')) \<and>
     (\<forall>w q. \<exists>a w'. llm_invoke L w q = Inr (a, w'))"


subsection \<open>A model client for the examples\<close>

text \<open>
  A client that always answers, used where a property is shown on a concrete run. Its
  world is the number of calls made so far; the text of a review is that many stars, so
  two reviews of one run differ.
\<close>

definition stub_llm :: "nat llm" where
  "stub_llm =
     \<lparr>plot_llm = (\<lambda>w q. Inr (\<lparr>premise = ''p'', synopsis = ''s'', setting = ''here'',
                                 turning_points = [], resolution = ''r''\<rparr>, Suc w)),
      character_llm = (\<lambda>w q. Inr ([], Suc w)),
      theme_llm = (\<lambda>w q. Inr (\<lparr>main_theme = ''t'', moral = ''m'', subthemes = []\<rparr>, Suc w)),
      screenplay_llm = (\<lambda>w q. Inr (\<lparr>acts = [], key_scenes = [], dialogue = []\<rparr>, Suc w)),
      market_llm = (\<lambda>w q. Inr (\<lparr>target_audience = [], genre_positioning = ''g'',
                                  unique_selling_points = [], comparisons = []\<rparr>, Suc w)),
      llm_invoke = (\<lambda>w q. Inr (replicate w (CHR ''*''), Suc w))\<rparr>"

section \<open>FaceRecog.py\<close>

text \<open>
  The libraries are outside the script. \<open>load_image_file\<close> reads an image,
  \<open>face_encodings\<close> gives one encoding for each face it finds in an image (none when it
  finds no face), and \<open>compare_faces\<close> takes a list of known encodings and one encoding
  to check and gives a list with one verdict for each known encoding. \<open>cv2.imread\<close> gives
  the pixels of a file, or \<open>None\<close> when it cannot read it. Every call may raise, also
  \<open>print\<close> and the calls that show a picture.
\<close>

text \<open>
  An exception is an \<open>IndexError\<close>, another exception of a class under \<open>Exception\<close>, or one
  of a class outside \<open>Exception\<close> (\<open>KeyboardInterrupt\<close>, \<open>SystemExit\<close>); the string names
  the class.
\<close>

datatype py_exception = IndexError | OtherException string | NonException string

text \<open>\<open>isinstance(e, Exception)\<close>, the test of the clause \<open>except Exception as e\<close>.\<close>

fun is_Exception :: "py_exception \<Rightarrow> bool" where
  "is_Exception IndexError = True"
| "is_Exception (OtherException k) = True"
| "is_Exception (NonException k) = False"

text \<open>A call made for its effect gives \<open>None\<close> when it returns and the exception when it
  raises.\<close>

record ('img, 'enc, 'pix) libraries =
  load_image_file :: "string \<Rightarrow> py_exception + 'img"
  face_encodings :: "'img \<Rightarrow> py_exception + 'enc list"
  compare_faces :: "'enc list \<Rightarrow> 'enc \<Rightarrow> py_exception + bool list"
  print_error :: "py_exception \<Rightarrow> py_exception option"
  cv2_imread :: "string \<Rightarrow> py_exception + 'pix option"
  plt_imshow :: "'pix option \<Rightarrow> py_exception option"
  plt_xticks :: "py_exception option"
  plt_yticks :: "py_exception option"
  plt_show :: "py_exception option"

text \<open>What \<open>SelfieAuth\<close> returns: the constant \<open>False\<close>, or the list \<open>compare_faces\<close> gave.\<close>

datatype retval = PyBool bool | PyList "bool list"

text \<open>\<open>ShowPic\<close>: read the file, show it, hide the ticks of both axes, show the window.\<close>

definition ShowPic :: "('img, 'enc, 'pix) libraries \<Rightarrow> string \<Rightarrow> py_exception option" where
  "ShowPic fr img =
     (case cv2_imread fr img of Inl e \<Rightarrow> Some e
      | Inr pixels \<Rightarrow>
     (case plt_imshow fr pixels of Some e \<Rightarrow> Some e
      | None \<Rightarrow>
     (case plt_xticks fr of Some e \<Rightarrow> Some e
      | None \<Rightarrow>
     (case plt_yticks fr of Some e \<Rightarrow> Some e
      | None \<Rightarrow> plt_show fr))))"

text \<open>\<open>fr.face_encodings(image)[0]\<close>: an \<open>IndexError\<close> when the list is empty.\<close>

definition first_encoding :: "('img, 'enc, 'pix) libraries \<Rightarrow> 'img \<Rightarrow> py_exception + 'enc" where
  "first_encoding fr img =
     (case face_encodings fr img of Inl e \<Rightarrow> Inl e
      | Inr encodings \<Rightarrow> (case encodings of [] \<Rightarrow> Inl IndexError | x # _ \<Rightarrow> Inr x))"

text \<open>
  \<open>SelfieAuth\<close>. Both images are loaded before the \<open>try\<close>. The \<open>try\<close> holds the two
  encodings; its handler takes an exception under \<open>Exception\<close>, prints it, shows the new
  picture and returns \<open>False\<close>; any other exception goes on to the caller, and so does
  one raised in the handler. After the \<open>try\<close> come the comparison, \<open>ShowPic\<close> and the
  return of the comparison's result.
\<close>

definition SelfieAuth ::
  "('img, 'enc, 'pix) libraries \<Rightarrow> string \<Rightarrow> string \<Rightarrow> py_exception + retval" where
  "SelfieAuth fr auth_image new_image =
     (case load_image_file fr auth_image of Inl e \<Rightarrow> Inl e
      | Inr user_given_image \<Rightarrow>
     (case load_image_file fr new_image of Inl e \<Rightarrow> Inl e
      | Inr user_selfie_image \<Rightarrow>
     (case
        (case first_encoding fr user_given_image of Inl e \<Rightarrow> Inl e
         | Inr user_encoding \<Rightarrow>
        (case first_encoding fr user_selfie_image of Inl e \<Rightarrow> Inl e
         | Inr selfie_encoding \<Rightarrow> Inr (user_encoding, selfie_encoding)))
      of
        Inl e \<Rightarrow>
          if is_Exception e then
            (case print_error fr e of Some e' \<Rightarrow> Inl e'
             | None \<Rightarrow>
            (case ShowPic fr new_image of Some e' \<Rightarrow> Inl e'
             | None \<Rightarrow> Inr (PyBool False)))
          else Inl e
      | Inr (user_encoding, selfie_encoding) \<Rightarrow>
          (case compare_faces fr [user_encoding] selfie_encoding of Inl e \<Rightarrow> Inl e
           | Inr result \<Rightarrow>
          (case ShowPic fr new_image of Some e \<Rightarrow> Inl e
           | None \<Rightarrow> Inr (PyList result))))))"

text \<open>
  Libraries for the examples. An image is its path: \<open>missing.jpg\<close> cannot be loaded,
  \<open>corrupt.jpg\<close> makes the encoder raise a \<open>RuntimeError\<close> and \<open>huge.jpg\<close> a
  \<open>MemoryError\<close>, on \<open>slow.jpg\<close> the encoder is interrupted from the keyboard,
  \<open>landscape.jpg\<close> shows no face, every other image shows one face (its encoding is
  the path); the comparison raises on the encoding \<open>nan.jpg\<close> and otherwise compares
  encodings for equality. Printing a \<open>MemoryError\<close> fails with a \<open>BrokenPipeError\<close>.
  \<open>cv2.imread\<close> cannot read \<open>anim.gif\<close> and gives \<open>None\<close> for it, on which \<open>imshow\<close>
  raises a \<open>TypeError\<close>.
\<close>

definition stub_fr :: "(string, string, string) libraries" where
  "stub_fr =
     \<lparr>load_image_file =
        (\<lambda>path. if path = ''missing.jpg'' then Inl (OtherException ''FileNotFoundError'')
                 else Inr path),
      face_encodings =
        (\<lambda>img. if img = ''corrupt.jpg'' then Inl (OtherException ''RuntimeError'')
                else if img = ''huge.jpg'' then Inl (OtherException ''MemoryError'')
                else if img = ''slow.jpg'' then Inl (NonException ''KeyboardInterrupt'')
                else if img = ''landscape.jpg'' then Inr []
                else Inr [img]),
      compare_faces =
        (\<lambda>known e. if e = ''nan.jpg'' then Inl (OtherException ''ValueError'')
                    else Inr (map (\<lambda>k. k = e) known)),
      print_error =
        (\<lambda>e. if e = OtherException ''MemoryError''
             then Some (OtherException ''BrokenPipeError'') else None),
      cv2_imread = (\<lambda>path. if path = ''anim.gif'' then Inr None else Inr (Some path)),
      plt_imshow =
        (\<lambda>pixels. case pixels of None \<Rightarrow> Some (OtherException ''TypeError'') | Some _ \<Rightarrow> None),
      plt_xticks = None,
      plt_yticks = None,
      plt_show = None\<rparr>"

section \<open>FRT2.py and FRT3.py: thumbnails\<close>

subsection \<open>Floating point division and \<open>int\<close>\<close>

text \<open>
  \<open>a / b\<close> on two Python integers is the double nearest to the exact quotient (ties to
  the even mantissa), and \<open>int(x)\<close> drops the fraction of \<open>x\<close>. A finite double is
  modelled by the rational number it stands for.
\<close>

datatype arith_error = ZeroDivisionError | OverflowError

definition round_half_even :: "rat \<Rightarrow> int" where
  "round_half_even x =
     (let f = \<lfloor>x\<rfloor>; d = x - of_int f
      in if d < 1 / 2 then f else if 1 / 2 < d then f + 1 else if even f then f else f + 1)"

text \<open>The exponent \<open>e\<close> of a positive rational \<open>x\<close>: \<open>2 ^ e \<le> x < 2 ^ (e + 1)\<close>.\<close>

definition exponent :: "rat \<Rightarrow> int" where
  "exponent x =
     (let (a, b) = quotient_of x; d = bitlen a - bitlen b
      in if 2 powi d \<le> x then d else d - 1)"

text \<open>Rounding to 53 bits of mantissa, with the exponents of a binary64 number.\<close>

definition round_double :: "rat \<Rightarrow> rat" where
  "round_double x =
     (if x = 0 then 0
      else let e = max (exponent \<bar>x\<bar>) (- 1022); ulp = 2 powi (e - 52)
           in of_int (round_half_even (x / ulp)) * ulp)"

definition truediv :: "int \<Rightarrow> int \<Rightarrow> arith_error + rat" where
  "truediv a b =
     (if b = 0 then Inl ZeroDivisionError
      else let q = round_double (of_int a / of_int b)
           in if 2 powi 1024 \<le> \<bar>q\<bar> then Inl OverflowError else Inr q)"

definition py_int :: "rat \<Rightarrow> int" where
  "py_int x = (if 0 \<le> x then \<lfloor>x\<rfloor> else \<lceil>x\<rceil>)"

subsection \<open>Paths\<close>

text \<open>\<open>s.rfind(c)\<close>: the highest index of \<open>c\<close> in \<open>s\<close>, or \<open>-1\<close>.\<close>

fun rfind :: "string \<Rightarrow> char \<Rightarrow> int" where
  "rfind [] c = - 1"
| "rfind (x # xs) c =
     (let r = rfind xs c in if 0 \<le> r then r + 1 else if x = c then 0 else - 1)"

definition rstrip :: "string \<Rightarrow> char \<Rightarrow> string" where
  "rstrip s c = rev (dropWhile (\<lambda>x. x = c) (rev s))"

definition sep :: char where
  "sep = CHR ''/''"

text \<open>\<open>os.path.split\<close> (the POSIX one)\<close>

definition os_path_split :: "string \<Rightarrow> string \<times> string" where
  "os_path_split p =
     (let i = nat (rfind p sep + 1); head = take i p; tail = drop i p
      in (if head \<noteq> [] \<and> head \<noteq> replicate (length head) sep then rstrip head sep else head,
          tail))"

text \<open>\<open>os.path.join\<close> of two components\<close>

definition os_path_join :: "string \<Rightarrow> string \<Rightarrow> string" where
  "os_path_join a b =
     (if startswith b [sep] then b
      else if a = [] \<or> last a = sep then a @ b
      else a @ [sep] @ b)"

text \<open>\<open>os.path.splitext\<close>: the extension starts at the last dot of the last component,
  unless only dots come before it there.\<close>

definition os_path_splitext :: "string \<Rightarrow> string \<times> string" where
  "os_path_splitext p =
     (let sepIndex = rfind p sep; dotIndex = rfind p (CHR ''.'')
      in if sepIndex < dotIndex \<and>
            (\<exists>c \<in> set (drop (nat (sepIndex + 1)) (take (nat dotIndex) p)). c \<noteq> CHR ''.'')
         then (take (nat dotIndex) p, drop (nat dotIndex) p)
         else (p, []))"

subsection \<open>The calls to the storage client and the image library\<close>

text \<open>
  Both scripts are sequences of calls to the storage client, to the image library and
  to the system. An image is given by its \<open>shape\<close>, height first. \<open>Print\<close> is a call of
  \<open>print\<close>; its text is left out.
\<close>

datatype call =
    Get_bucket string
  | Get_blob string string
  | Download_as_string string string
  | Download_to_filename string string string
  | Imdecode
  | Imread string
  | Resize int int
  | Imwrite string
  | Upload_from_filename string string string
  | Remove string
  | Mkstemp string
  | Print

record gcs_event =
  bucket :: string
  name :: string

subsection \<open>FRT2.py\<close>

text \<open>\<open>reformat_image\<close> is modelled by the calls it issues, in order, as far as each call
  returns.\<close>

text \<open>\<open>os.environ.get(key, default)\<close>\<close>

definition environ_get :: "(string \<rightharpoonup> string) \<Rightarrow> string \<Rightarrow> string \<Rightarrow> string" where
  "environ_get environ key dflt = (case environ key of None \<Rightarrow> dflt | Some v \<Rightarrow> v)"

definition scale_percent :: int where
  "scale_percent = 50"

text \<open>\<open>dim\<close>, the target size: \<open>(width, height)\<close> from the shape \<open>(height, width)\<close>.\<close>

definition reformat_dim :: "int \<times> int \<Rightarrow> arith_error + int \<times> int" where
  "reformat_dim shape =
     (case truediv (snd shape * scale_percent) 100 of Inl e \<Rightarrow> Inl e
      | Inr w \<Rightarrow>
     (case truediv (fst shape * scale_percent) 100 of Inl e \<Rightarrow> Inl e
      | Inr h \<Rightarrow> Inr (py_int w, py_int h)))"

definition dest_bucket_name :: "(string \<rightharpoonup> string) \<Rightarrow> string" where
  "dest_bucket_name environ =
     environ_get environ ''PROCESSED_BUCKET_NAME'' ''Specified environment variable is not set.''"

text \<open>
  \<open>reformat_image\<close>: \<open>environ\<close> is the process environment, \<open>temp_name\<close> the name of the
  temporary file and \<open>shape\<close> the shape of the decoded image.
\<close>

definition reformat_image ::
  "(string \<rightharpoonup> string) \<Rightarrow> string \<Rightarrow> int \<times> int \<Rightarrow> gcs_event \<Rightarrow> arith_error + call list" where
  "reformat_image environ temp_name shape file =
     (case reformat_dim shape of Inl e \<Rightarrow> Inl e
      | Inr (width, height) \<Rightarrow>
          (let temp_file = temp_name @ name file;
               dest_filename = name file
           in Inr [Get_bucket (bucket file),
                   Get_blob (bucket file) (name file),
                   Download_as_string (bucket file) (name file),
                   Imdecode,
                   Resize width height,
                   Imwrite temp_file,
                   Get_bucket (dest_bucket_name environ),
                   Upload_from_filename (dest_bucket_name environ) dest_filename temp_file]))"

subsection \<open>FRT3.py\<close>

text \<open>
  In this script every call may raise, and \<open>cv2.imread\<close> gives \<open>None\<close> for a file it
  cannot read. The world outside decides, knowing the calls made so far: \<open>raises\<close> gives
  the class of the exception a call raises, or \<open>None\<close> when the call returns;
  \<open>imread_shape\<close> gives the shape of the image \<open>cv2.imread\<close> returns, or \<open>None\<close>;
  \<open>mkstemp_name\<close> gives the name of the file \<open>mkstemp\<close> makes for a suffix. A function of
  the script takes the calls made so far and gives the calls made when it ends (the
  last one is the call that raised, if one did) and its value or its exception.
\<close>

datatype frt_error = AttributeError | Arith arith_error | CallError string

record cloud =
  raises :: "call list \<Rightarrow> call \<Rightarrow> string option"
  imread_shape :: "call list \<Rightarrow> string \<Rightarrow> (int \<times> int) option"
  mkstemp_name :: "call list \<Rightarrow> string \<Rightarrow> string"

definition do_call :: "cloud \<Rightarrow> call \<Rightarrow> call list \<Rightarrow> call list \<times> (frt_error + unit)" where
  "do_call env c cs =
     (cs @ [c], case raises env cs c of Some e \<Rightarrow> Inl (CallError e) | None \<Rightarrow> Inr ())"

definition then_do ::
  "call list \<times> (frt_error + 'a) \<Rightarrow> (call list \<Rightarrow> 'a \<Rightarrow> call list \<times> (frt_error + 'b)) \<Rightarrow>
   call list \<times> (frt_error + 'b)" where
  "then_do m k = (case m of (cs, Inl e) \<Rightarrow> (cs, Inl e) | (cs, Inr x) \<Rightarrow> k cs x)"

definition NEW_FILE_PREFIX :: string where
  "NEW_FILE_PREFIX = ''thumbnail_''"

definition download ::
  "cloud \<Rightarrow> call list \<Rightarrow> string \<Rightarrow> string \<Rightarrow> call list \<times> (frt_error + string)" where
  "download env cs bkt blob_name =
     (let ext = snd (os_path_splitext blob_name)
      in then_do (do_call env (Mkstemp ext) cs) (\<lambda>cs _.
           let temp_local_filename = mkstemp_name env cs ext
           in then_do (do_call env (Download_to_filename bkt blob_name temp_local_filename) cs)
                (\<lambda>cs _.
           then_do (do_call env Print cs) (\<lambda>cs _.
           (cs, Inr temp_local_filename)))))"

definition upload ::
  "cloud \<Rightarrow> call list \<Rightarrow> string \<Rightarrow> string \<Rightarrow> string \<Rightarrow> call list \<times> (frt_error + unit)" where
  "upload env cs bkt blob_name file_name =
     (let (dir, nm) = os_path_split blob_name;
          new_file_name = os_path_join dir (NEW_FILE_PREFIX @ nm)
      in then_do (do_call env (Upload_from_filename bkt new_file_name file_name) cs) (\<lambda>cs _.
           do_call env Print cs))"

text \<open>The target size \<open>(int(width/2), int(height/2))\<close> from the shape \<open>(height, width)\<close>.\<close>

definition resize_dim :: "int \<times> int \<Rightarrow> arith_error + int \<times> int" where
  "resize_dim shape =
     (let height = fst shape; width = snd shape
      in case truediv width 2 of Inl e \<Rightarrow> Inl e
         | Inr w \<Rightarrow>
        (case truediv height 2 of Inl e \<Rightarrow> Inl e
         | Inr h \<Rightarrow> Inr (py_int w, py_int h)))"

text \<open>\<open>resize\<close>: \<open>img.shape\<close> is an \<open>AttributeError\<close> when \<open>cv2.imread\<close> gave \<open>None\<close>.\<close>

definition resize ::
  "cloud \<Rightarrow> call list \<Rightarrow> string \<Rightarrow> call list \<times> (frt_error + string)" where
  "resize env cs file_name =
     then_do (do_call env (Imread file_name) cs) (\<lambda>cs _.
       case imread_shape env cs file_name of
         None \<Rightarrow> (cs, Inl AttributeError)
       | Some shape \<Rightarrow>
           then_do (do_call env Print cs) (\<lambda>cs _.
             case resize_dim shape of
               Inl e \<Rightarrow> (cs, Inl (Arith e))
             | Inr (w, h) \<Rightarrow>
                 then_do (do_call env (Resize w h) cs) (\<lambda>cs _.
                 then_do (do_call env (Imwrite file_name) cs) (\<lambda>cs _.
                 then_do (do_call env Print cs) (\<lambda>cs _.
                 (cs, Inr file_name))))))"

definition main :: "cloud \<Rightarrow> gcs_event \<Rightarrow> call list \<times> (frt_error + unit)" where
  "main env event =
     (let nm = snd (os_path_split (name event))
      in if startswith nm NEW_FILE_PREFIX then do_call env Print []
         else
           then_do (download env [] (bucket event) (name event)) (\<lambda>cs file_name.
           then_do (resize env cs file_name) (\<lambda>cs _.
           then_do (upload env cs (bucket event) (name event) file_name) (\<lambda>cs _.
           do_call env (Remove file_name) cs))))"

text \<open>
  A world for the examples: no call raises, the temporary file is \<open>/tmp/tmpq1\<close> with the
  suffix asked for, and \<open>cv2.imread\<close> can read no file but \<open>/tmp/tmpq1.png\<close>, an image of
  height 5 and width 7.
\<close>

definition stub_cloud :: cloud where
  "stub_cloud =
     \<lparr>raises = (\<lambda>cs c. None),
      imread_shape = (\<lambda>cs f. if f = ''/tmp/tmpq1.png'' then Some (5, 7) else None),
      mkstemp_name = (\<lambda>cs ext. ''/tmp/tmpq1'' @ ext)\<rparr>"

text \<open>The same world with the storage out of reach: every download raises \<open>NotFound\<close>.\<close>

definition offline_cloud :: cloud where
  "offline_cloud =
     stub_cloud\<lparr>raises :=
       (\<lambda>cs c. case c of Download_to_filename b n f \<Rightarrow> Some ''NotFound'' | _ \<Rightarrow> None)\<rparr>"

section \<open>Properties\<close>

lemma startswith_iff: "startswith s p \<longleftrightarrow> (\<exists>r. s = p @ r)"
  by (induction s p rule: startswith.induct) auto

lemma py_in_iff: "py_in needle hay \<longleftrightarrow> (\<exists>a b. hay = a @ needle @ b)"
proof (induction hay)
  case Nil
  then show ?case by auto
next
  case (Cons c cs)
  show ?case
  proof
    assume "py_in needle (c # cs)"
    then consider "startswith (c # cs) needle" | "py_in needle cs" by auto
    then show "\<exists>a b. c # cs = a @ needle @ b"
    proof cases
      case 1
      then obtain r where "c # cs = needle @ r" by (auto simp: startswith_iff)
      then have "c # cs = [] @ needle @ r" by simp
      then show ?thesis by blast
    next
      case 2
      then obtain a b where "cs = a @ needle @ b" using Cons.IH by auto
      then have "c # cs = (c # a) @ needle @ b" by simp
      then show ?thesis by blast
    qed
  next
    assume "\<exists>a b. c # cs = a @ needle @ b"
    then obtain a b where ab: "c # cs = a @ needle @ b" by blast
    show "py_in needle (c # cs)"
    proof (cases a)
      case Nil
      then have "startswith (c # cs) needle" using ab by (auto simp: startswith_iff)
      then show ?thesis by simp
    next
      case (Cons x a')
      then have "cs = a' @ needle @ b" using ab by simp
      then have "py_in needle cs" using Cons.IH by blast
      then show ?thesis by simp
    qed
  qed
qed


declare run_from.simps [simp del]

lemmas node_defs = develop_plot_def create_characters_def develop_theme_def write_screenplay_def
  director_review_def critic_review_def market_analysis_node_def handle_user_feedback_def

lemma merge_simps:
  "messages (merge_state s u) = operator_add (messages s) (messages u)"
  "concept (merge_state s u) = last_value (concept s) (concept u)"
  "plot (merge_state s u) = last_value (plot s) (plot u)"
  "characters (merge_state s u) = last_value (characters s) (characters u)"
  "theme (merge_state s u) = last_value (theme s) (theme u)"
  "screenplay (merge_state s u) = last_value (screenplay s) (screenplay u)"
  "market_analysis (merge_state s u) = last_value (market_analysis s) (market_analysis u)"
  "director_notes (merge_state s u) = last_value (director_notes s) (director_notes u)"
  "critic_feedback (merge_state s u) = last_value (critic_feedback s) (critic_feedback u)"
  "user_feedback (merge_state s u) = operator_add (user_feedback s) (user_feedback u)"
  by (simp_all add: merge_state_def)

lemma lv_simps: "last_value a None = a" "last_value a (Some v) = Some v"
  "operator_add b None = b" 
  by (simp_all add: last_value_def operator_add_def)

lemma succ_simps:
  "successor Develop_plot s = Some Create_characters"
  "successor Create_characters s = Some Develop_theme"
  "successor Develop_theme s = Some Write_screenplay"
  "successor Write_screenplay s = Some Director_review"
  "successor Director_review s = Some Critic_review"
  "successor Critic_review s = Some Market_analysis"
  "successor Market_analysis s = Some Handle_user_feedback"
  by (simp_all add: successor_def conditional_source_def edges_def)

lemma successor_router:
  "successor Handle_user_feedback s = Some (route_feedback s)"
  by (simp add: successor_def conditional_source_def path_map_def route_feedback_def
      route_feedback_of_def route_latest_def)

lemma run_stop:
  "run_from L Handle_user_feedback w r = Inr (r\<lparr>status := Interrupted Handle_user_feedback\<rparr>, w)"
  "run_from L END w r = Inr (r\<lparr>status := Finished\<rparr>, w)"
  by (simp_all add: run_from.simps interrupt_before_def)

lemma run_step:
  "n \<noteq> END \<Longrightarrow> n \<noteq> Handle_user_feedback \<Longrightarrow> run_from L n w r =
    (case node_fn n L w (vals r) of Inl e \<Rightarrow> Inl e
         | Inr (u, w') \<Rightarrow>
             (case successor n (merge_state (vals r) u) of
                None \<Rightarrow>
                  Inr (\<lparr>vals = merge_state (vals r) u, executed = executed r @ [n],
                        status = Finished\<rparr>, w')
              | Some m \<Rightarrow>
                  run_from L m w'
                    \<lparr>vals = merge_state (vals r) u, executed = executed r @ [n],
                     status = status r\<rparr>))"
  by (subst run_from.simps) (simp add: interrupt_before_def)

lemma node_fn_frame:
  "node_fn n L w s = Inr (u, w') \<Longrightarrow>
     user_feedback u = None \<and> concept u = None \<and> messages u = None"
  by (cases n) (auto simp: node_defs getitem_def no_update_def split: sum.splits option.splits)

lemma run_from_frame:
  "run_from L n w r = Inr (r', w') \<Longrightarrow>
     user_feedback (vals r') = user_feedback (vals r) \<and> concept (vals r') = concept (vals r)
     \<and> messages (vals r') = messages (vals r)"
proof (induction L n w r rule: run_from.induct)
  case (1 L n w r)
  show ?case
  proof (cases "n = END \<or> n \<in> set interrupt_before")
    case True
    then show ?thesis using "1.prems" by (auto simp: run_from.simps split: if_splits)
  next
    case False
    then obtain u w1 where u: "node_fn n L w (vals r) = Inr (u, w1)"
      using "1.prems" by (auto simp: run_from.simps split: sum.splits)
    note fr = node_fn_frame [OF u]
    show ?thesis
    proof (cases "successor n (merge_state (vals r) u)")
      case None
      then show ?thesis using "1.prems" False u fr
        by (auto simp: run_from.simps merge_simps lv_simps)
    next
      case (Some m)
      then have "run_from L m w1 \<lparr>vals = merge_state (vals r) u, executed = executed r @ [n],
                     status = status r\<rparr> = Inr (r', w')"
        using "1.prems" False u by (simp add: run_from.simps)
      from "1.IH" [OF _ _ u refl Some this] False fr show ?thesis
        by (simp add: merge_simps lv_simps)
    qed
  qed
qed

lemma resume_feedback:
  assumes "resume L w r f = Inr (r', w')"
  shows "user_feedback (vals r') = Some (get_user_feedback (user_feedback (vals r)) @ [f])"
proof -
  from assms obtain n where n: "status r = Interrupted n"
    by (auto simp: resume_def split: status.splits)
  let ?s = "merge_state (vals r) (no_update\<lparr>user_feedback := Some [f]\<rparr>)"
  have s: "user_feedback ?s = Some (get_user_feedback (user_feedback (vals r)) @ [f])"
    by (simp add: merge_simps operator_add_def get_user_feedback_def)
  from assms n obtain u w1 where u: "node_fn n L w ?s = Inr (u, w1)"
    by (auto simp: resume_def Let_def split: sum.splits)
  note fr = node_fn_frame [OF u]
  show ?thesis
  proof (cases "successor n (merge_state ?s u)")
    case None
    then show ?thesis using assms n u fr s
      by (auto simp: resume_def Let_def merge_simps lv_simps)
  next
    case (Some m)
    then have "run_from L m w1 \<lparr>vals = merge_state ?s u, executed = executed r @ [n],
                     status = Running\<rparr> = Inr (r', w')"
      using assms n u by (simp add: resume_def Let_def)
    from run_from_frame [OF this] fr s show ?thesis
      by (simp add: merge_simps lv_simps)
  qed
qed

lemma resumes_feedback:
  "resumes L w r fs = Inr (r', w') \<Longrightarrow>
     get_user_feedback (user_feedback (vals r')) = get_user_feedback (user_feedback (vals r)) @ fs"
proof (induction fs arbitrary: w r)
  case Nil
  then show ?case by simp
next
  case (Cons f fs)
  then obtain r1 w1 where a: "resume L w r f = Inr (r1, w1)" and b: "resumes L w1 r1 fs = Inr (r', w')"
    by (auto split: sum.splits)
  from Cons.IH [OF b] resume_feedback [OF a] show ?case
    by (simp add: get_user_feedback_def)
qed


subsection \<open>The feedback router\<close>

text \<open>
  Claim C1. The router looks only at the last entry of \<open>user_feedback\<close>, in lower case.
  With no entry (the key absent, or the list empty) it answers \<open>END\<close>. Otherwise the
  answer is \<open>develop_plot\<close> if that entry contains \<open>plot\<close>, else \<open>create_characters\<close> if it
  contains \<open>character\<close>, else \<open>develop_theme\<close> if it contains \<open>theme\<close>, else
  \<open>write_screenplay\<close> if it contains \<open>screenplay\<close>, else \<open>END\<close>; an entry with several
  keywords is routed by the first of them in this order. The conditional edge leads to
  the node the router names.
\<close>

theorem route_feedback_priority:
  "route_feedback state =
     (case user_feedback state of
        None \<Rightarrow> END
      | Some fs \<Rightarrow>
          if fs = [] then END
          else if \<exists>a b. lower (last fs) = a @ ''plot'' @ b then Develop_plot
          else if \<exists>a b. lower (last fs) = a @ ''character'' @ b then Create_characters
          else if \<exists>a b. lower (last fs) = a @ ''theme'' @ b then Develop_theme
          else if \<exists>a b. lower (last fs) = a @ ''screenplay'' @ b then Write_screenplay
          else END)
   \<and> successor Handle_user_feedback state = Some (route_feedback state)"
  by (simp add: successor_router route_feedback_def route_feedback_of_def
      get_user_feedback_def route_latest_def py_in_iff split: option.splits)


subsection \<open>One pass and the resumed passes\<close>

lemma reliable_not_Inl:
  assumes "reliable L"
  shows "plot_llm L w q \<noteq> Inl e" "character_llm L w q \<noteq> Inl e" "theme_llm L w q \<noteq> Inl e"
    "screenplay_llm L w q \<noteq> Inl e" "market_llm L w q \<noteq> Inl e" "llm_invoke L w q \<noteq> Inl e"
  using assms unfolding reliable_def by (metis Inl_Inr_False)+

lemma Inr_caseD:
  "(case x of Inl e \<Rightarrow> False | Inr (a, b) \<Rightarrow> P a b) \<Longrightarrow> \<exists>a b. x = Inr (a, b) \<and> P a b"
  by (cases x) auto

lemma reliable_stub_llm: "reliable stub_llm"
  by (simp add: reliable_def stub_llm_def)

lemma merge_no_update: "merge_state s no_update = s"
  by (cases s) (simp add: merge_state_def no_update_def last_value_def operator_add_def)

lemma route_after_inject:
  "route_feedback (merge_state s (no_update\<lparr>user_feedback := Some [f]\<rparr>)) = route_latest (lower f)"
  by (simp add: route_feedback_def route_feedback_of_def merge_simps operator_add_def
      get_user_feedback_def no_update_def)

lemma invoke_total:
  "reliable L \<Longrightarrow> \<exists>r w'. invoke L w (initial_state c) = Inr (r, w')"
  by (auto simp: invoke_def edges_def run_step run_stop succ_simps node_defs getitem_def
      merge_simps lv_simps initial_state_def no_update_def reliable_not_Inl
      split: sum.splits option.splits prod.splits)

lemma invoke_result:
  "invoke L w (initial_state c) = Inr (r, w') \<Longrightarrow>
   executed r = [Develop_plot, Create_characters, Develop_theme, Write_screenplay,
      Director_review, Critic_review, Market_analysis] \<and>
   status r = Interrupted Handle_user_feedback \<and> concept (vals r) = Some c \<and>
   plot (vals r) \<noteq> None \<and> characters (vals r) \<noteq> None \<and> theme (vals r) \<noteq> None \<and>
   screenplay (vals r) \<noteq> None \<and> market_analysis (vals r) \<noteq> None \<and>
   (\<exists>d. director_notes (vals r) = Some [d]) \<and> (\<exists>k. critic_feedback (vals r) = Some [k]) \<and>
   user_feedback (vals r) = None"
  by (auto simp: invoke_def edges_def run_step run_stop succ_simps node_defs getitem_def
      merge_simps lv_simps initial_state_def no_update_def
      split: sum.splits option.splits prod.splits)

lemma resume_at_router:
  "status r = Interrupted Handle_user_feedback \<Longrightarrow>
   resume L w r f =
     run_from L (route_latest (lower f)) w
       \<lparr>vals = merge_state (vals r) (no_update\<lparr>user_feedback := Some [f]\<rparr>),
        executed = executed r @ [Handle_user_feedback], status = Running\<rparr>"
  by (simp add: resume_def Let_def handle_user_feedback_def merge_no_update successor_router
      route_after_inject)

lemma pass_from_characters_total:
  "reliable L \<Longrightarrow> plot (vals r) \<noteq> None \<Longrightarrow>
   \<exists>r' w'. run_from L Create_characters w r = Inr (r', w')"
  by (auto simp: run_step run_stop succ_simps node_defs getitem_def
      merge_simps lv_simps no_update_def reliable_not_Inl
      split: sum.splits option.splits prod.splits)

lemma pass_from_characters_result:
  "run_from L Create_characters w r = Inr (r', w') \<Longrightarrow>
   executed r' = executed r @ [Create_characters, Develop_theme, Write_screenplay,
      Director_review, Critic_review, Market_analysis] \<and>
   status r' = Interrupted Handle_user_feedback \<and> plot (vals r') = plot (vals r) \<and>
   characters (vals r') \<noteq> None \<and> theme (vals r') \<noteq> None \<and> screenplay (vals r') \<noteq> None \<and>
   market_analysis (vals r') \<noteq> None \<and> (\<exists>d. director_notes (vals r') = Some [d]) \<and>
   (\<exists>k. critic_feedback (vals r') = Some [k])"
  by (auto simp: run_step run_stop succ_simps node_defs getitem_def
      merge_simps lv_simps no_update_def
      split: sum.splits option.splits prod.splits)

lemma pass_from_characters_indep:
  "run_from L Create_characters w
     (r\<lparr>vals := (vals r)\<lparr>characters := a, theme := b, screenplay := c, market_analysis := d,
          director_notes := e, critic_feedback := g\<rparr>\<rparr>) =
   run_from L Create_characters w r"
  by (auto simp: run_step run_stop succ_simps node_defs getitem_def
      merge_simps lv_simps no_update_def merge_state_def
      split: sum.splits option.splits prod.splits)

text \<open>
  Claim C2. From an input with only a concept, and with no feedback given at the
  interrupt, a run in which the model answers every call executes \<open>develop_plot\<close>,
  \<open>create_characters\<close>, \<open>develop_theme\<close>, \<open>write_screenplay\<close>, \<open>director_review\<close>,
  \<open>critic_review\<close> and \<open>market_analysis\<close> once each in this order and pauses before
  \<open>handle_user_feedback\<close>; the state it returns has the plot, the characters, the theme,
  the screenplay and the market analysis, and one director note and one critic note.
  Every run that returns a state returns this one.
\<close>

theorem invoke_single_pass:
  "(reliable L \<longrightarrow> (\<exists>r w'. invoke L w (initial_state c) = Inr (r, w'))) \<and>
   (\<forall>r w'. invoke L w (initial_state c) = Inr (r, w') \<longrightarrow>
      executed r = [Develop_plot, Create_characters, Develop_theme, Write_screenplay,
        Director_review, Critic_review, Market_analysis] \<and>
      status r = Interrupted Handle_user_feedback \<and>
      concept (vals r) = Some c \<and>
      plot (vals r) \<noteq> None \<and> characters (vals r) \<noteq> None \<and> theme (vals r) \<noteq> None \<and>
      screenplay (vals r) \<noteq> None \<and> market_analysis (vals r) \<noteq> None \<and>
      (\<exists>d. director_notes (vals r) = Some [d]) \<and>
      (\<exists>k. critic_feedback (vals r) = Some [k]) \<and>
      user_feedback (vals r) = None)"
  using invoke_total [of L w c] invoke_result [of L w c] by blast

theorem invoke_single_pass_witness:
  "reliable stub_llm \<and>
   (\<exists>r w'. invoke stub_llm 0 (initial_state ''A time-traveling chef'') = Inr (r, w') \<and>
      executed r = [Develop_plot, Create_characters, Develop_theme, Write_screenplay,
        Director_review, Critic_review, Market_analysis] \<and>
      status r = Interrupted Handle_user_feedback \<and>
      plot (vals r) \<noteq> None \<and> market_analysis (vals r) \<noteq> None \<and>
      (\<exists>d. director_notes (vals r) = Some [d]) \<and>
      (\<exists>k. critic_feedback (vals r) = Some [k]))"
  using invoke_single_pass [of stub_llm 0 "''A time-traveling chef''"] reliable_stub_llm
  by blast

text \<open>
  Claim C3. \<open>user_feedback\<close> only grows: no node writes the key, so merging a node's update
  leaves the list as it was; each resume call adds its feedback string at the end; after
  \<open>N\<close> resume calls the list is the list before them followed by the \<open>N\<close> strings in the
  order given, and for a run started from a concept it is exactly these \<open>N\<close> strings.
\<close>

theorem user_feedback_append_only:
  "(\<forall>n s u w'. node_fn n L w s = Inr (u, w') \<longrightarrow>
      user_feedback (merge_state s u) = user_feedback s) \<and>
   (\<forall>r' w'. resumes L w r fs = Inr (r', w') \<longrightarrow>
      get_user_feedback (user_feedback (vals r')) =
        get_user_feedback (user_feedback (vals r)) @ fs) \<and>
   (\<forall>r0 w0 r' w'. invoke L w (initial_state c) = Inr (r0, w0) \<longrightarrow>
      resumes L w0 r0 fs = Inr (r', w') \<longrightarrow>
      get_user_feedback (user_feedback (vals r')) = fs \<and>
      length (get_user_feedback (user_feedback (vals r'))) = length fs)"
proof (intro conjI allI impI)
  fix n s u w'
  assume "node_fn n L w s = Inr (u, w')"
  from node_fn_frame [OF this] show "user_feedback (merge_state s u) = user_feedback s"
    by (simp add: merge_simps lv_simps)
next
  fix r' w'
  assume "resumes L w r fs = Inr (r', w')"
  then show "get_user_feedback (user_feedback (vals r')) =
      get_user_feedback (user_feedback (vals r)) @ fs"
    by (rule resumes_feedback)
next
  fix r0 w0 r' w'
  assume a: "invoke L w (initial_state c) = Inr (r0, w0)"
    and b: "resumes L w0 r0 fs = Inr (r', w')"
  from invoke_result [OF a] have "user_feedback (vals r0) = None" by simp
  with resumes_feedback [OF b]
  show fs: "get_user_feedback (user_feedback (vals r')) = fs"
    by (simp add: get_user_feedback_def)
  show "length (get_user_feedback (user_feedback (vals r'))) = length fs"
    by (simp add: fs)
qed

theorem user_feedback_append_only_witness:
  "\<exists>r0 w0 r' w'.
     invoke stub_llm 0 (initial_state ''chef'') = Inr (r0, w0) \<and>
     resumes stub_llm w0 r0 [''more on the Screenplay'', ''tighten the theme'', ''fine'']
       = Inr (r', w') \<and>
     user_feedback (vals r') = Some [''more on the Screenplay'', ''tighten the theme'', ''fine''] \<and>
     length (get_user_feedback (user_feedback (vals r'))) = 3"
proof -
  let ?fs = "[''more on the Screenplay'', ''tighten the theme'', ''fine'']"
  have "case invoke stub_llm 0 (initial_state ''chef'') of
          Inl e \<Rightarrow> False
        | Inr (r0, w0) \<Rightarrow>
            (case resumes stub_llm w0 r0 ?fs of Inl e \<Rightarrow> False | Inr (r', w') \<Rightarrow> True)"
    by code_simp
  from Inr_caseD [OF this] obtain r0 w0
    where a: "invoke stub_llm 0 (initial_state ''chef'') = Inr (r0, w0)"
      and "case resumes stub_llm w0 r0 ?fs of Inl e \<Rightarrow> False | Inr (r', w') \<Rightarrow> True"
    by blast
  from Inr_caseD [OF this(2)] obtain r' w'
    where b: "resumes stub_llm w0 r0 ?fs = Inr (r', w')"
    by blast
  from user_feedback_append_only [of stub_llm 0 r0 ?fs "''chef''"] a b
  have c: "get_user_feedback (user_feedback (vals r')) = ?fs" by blast
  then have "user_feedback (vals r') = Some ?fs"
    by (cases "user_feedback (vals r')") (simp_all add: get_user_feedback_def)
  with a b c show ?thesis by auto
qed

text \<open>
  Claim C4. \<open>director_notes\<close> and \<open>critic_feedback\<close> are declared with a plain list type,
  without \<open>operator.add\<close>, so the one-entry list a review node returns replaces the list
  that was there. On the run below the first pass leaves the director note \<open>****\<close> and the
  critic note \<open>*****\<close>; after the feedback \<open>Rework the Screenplay\<close> the resumed pass runs
  both reviews again, and each list holds only the new note: the notes of the first pass
  are gone.
\<close>

theorem review_notes_overwritten:
  "\<exists>r0 w0 r1 w1.
     invoke stub_llm 0 (initial_state ''chef'') = Inr (r0, w0) \<and>
     director_notes (vals r0) = Some [''****''] \<and>
     critic_feedback (vals r0) = Some [''*****''] \<and>
     resume stub_llm w0 r0 ''Rework the Screenplay'' = Inr (r1, w1) \<and>
     executed r1 = executed r0 @ [Handle_user_feedback, Write_screenplay, Director_review,
       Critic_review, Market_analysis] \<and>
     director_notes (vals r1) = Some [''********''] \<and>
     critic_feedback (vals r1) = Some [''*********'']"
proof -
  have "case invoke stub_llm 0 (initial_state ''chef'') of
          Inl e \<Rightarrow> False
        | Inr (r0, w0) \<Rightarrow>
            director_notes (vals r0) = Some [''****''] \<and>
            critic_feedback (vals r0) = Some [''*****''] \<and>
            (case resume stub_llm w0 r0 ''Rework the Screenplay'' of
               Inl e \<Rightarrow> False
             | Inr (r1, w1) \<Rightarrow>
                 executed r1 = executed r0 @ [Handle_user_feedback, Write_screenplay,
                   Director_review, Critic_review, Market_analysis] \<and>
                 director_notes (vals r1) = Some [''********''] \<and>
                 critic_feedback (vals r1) = Some [''*********''])"
    by code_simp
  from Inr_caseD [OF this] obtain r0 w0
    where a: "invoke stub_llm 0 (initial_state ''chef'') = Inr (r0, w0)"
      and n0: "director_notes (vals r0) = Some [''****'']"
        "critic_feedback (vals r0) = Some [''*****'']"
      and "case resume stub_llm w0 r0 ''Rework the Screenplay'' of
               Inl e \<Rightarrow> False
             | Inr (r1, w1) \<Rightarrow>
                 executed r1 = executed r0 @ [Handle_user_feedback, Write_screenplay,
                   Director_review, Critic_review, Market_analysis] \<and>
                 director_notes (vals r1) = Some [''********''] \<and>
                 critic_feedback (vals r1) = Some [''*********'']"
    by blast
  from Inr_caseD [OF this(4)] obtain r1 w1
    where "resume stub_llm w0 r0 ''Rework the Screenplay'' = Inr (r1, w1)"
      and "executed r1 = executed r0 @ [Handle_user_feedback, Write_screenplay,
                   Director_review, Critic_review, Market_analysis]"
      and "director_notes (vals r1) = Some [''********'']"
      and "critic_feedback (vals r1) = Some [''*********'']"
    by blast
  with a n0 show ?thesis by blast
qed

text \<open>
  Claim C5. At the interrupt, a feedback string that contains \<open>character\<close> and not \<open>plot\<close>
  (in lower case) restarts the run at \<open>create_characters\<close>: the resumed pass runs
  \<open>handle_user_feedback\<close>, \<open>create_characters\<close>, \<open>develop_theme\<close>, \<open>write_screenplay\<close>,
  \<open>director_review\<close>, \<open>critic_review\<close> and \<open>market_analysis\<close> and pauses again. It returns a
  state whenever the plot is there and the model answers. The plot is the one of the
  pass before. The characters, the theme, the screenplay, the two notes and the market
  analysis are computed again: what these six fields held before the resume call has no
  influence on the outcome.
\<close>

theorem resume_character_feedback:
  assumes "status r = Interrupted Handle_user_feedback"
    and "\<exists>a b. lower f = a @ ''character'' @ b"
    and "\<not> (\<exists>a b. lower f = a @ ''plot'' @ b)"
  shows
   "(reliable L \<and> plot (vals r) \<noteq> None \<longrightarrow> (\<exists>r' w'. resume L w r f = Inr (r', w'))) \<and>
    (\<forall>r' w'. resume L w r f = Inr (r', w') \<longrightarrow>
       executed r' = executed r @ [Handle_user_feedback, Create_characters, Develop_theme,
         Write_screenplay, Director_review, Critic_review, Market_analysis] \<and>
       status r' = Interrupted Handle_user_feedback \<and>
       plot (vals r') = plot (vals r) \<and>
       characters (vals r') \<noteq> None \<and> theme (vals r') \<noteq> None \<and>
       screenplay (vals r') \<noteq> None \<and> market_analysis (vals r') \<noteq> None \<and>
       (\<exists>d. director_notes (vals r') = Some [d]) \<and>
       (\<exists>k. critic_feedback (vals r') = Some [k])) \<and>
    (\<forall>cs t sp ma dn cf.
       resume L w
         (r\<lparr>vals := (vals r)\<lparr>characters := cs, theme := t, screenplay := sp,
              market_analysis := ma, director_notes := dn, critic_feedback := cf\<rparr>\<rparr>) f
       = resume L w r f)"
proof -
  have route: "route_latest (lower f) = Create_characters"
    using assms(2,3) by (simp add: route_latest_def py_in_iff)
  let ?r1 = "\<lparr>vals = merge_state (vals r) (no_update\<lparr>user_feedback := Some [f]\<rparr>),
        executed = executed r @ [Handle_user_feedback], status = Running\<rparr>"
  have res: "resume L w r f = run_from L Create_characters w ?r1"
    using assms(1) by (simp add: resume_at_router route)
  have p: "plot (vals ?r1) = plot (vals r)"
    by (simp add: merge_simps lv_simps no_update_def)
  have total: "reliable L \<and> plot (vals r) \<noteq> None \<longrightarrow> (\<exists>r' w'. resume L w r f = Inr (r', w'))"
    using pass_from_characters_total [of L ?r1 w] p res by auto
  have result: "\<forall>r' w'. resume L w r f = Inr (r', w') \<longrightarrow>
       executed r' = executed r @ [Handle_user_feedback, Create_characters, Develop_theme,
         Write_screenplay, Director_review, Critic_review, Market_analysis] \<and>
       status r' = Interrupted Handle_user_feedback \<and>
       plot (vals r') = plot (vals r) \<and>
       characters (vals r') \<noteq> None \<and> theme (vals r') \<noteq> None \<and>
       screenplay (vals r') \<noteq> None \<and> market_analysis (vals r') \<noteq> None \<and>
       (\<exists>d. director_notes (vals r') = Some [d]) \<and>
       (\<exists>k. critic_feedback (vals r') = Some [k])"
  proof (intro allI impI)
    fix r' w'
    assume "resume L w r f = Inr (r', w')"
    then have "run_from L Create_characters w ?r1 = Inr (r', w')" by (simp add: res)
    from pass_from_characters_result [OF this] p
    show "executed r' = executed r @ [Handle_user_feedback, Create_characters, Develop_theme,
         Write_screenplay, Director_review, Critic_review, Market_analysis] \<and>
       status r' = Interrupted Handle_user_feedback \<and>
       plot (vals r') = plot (vals r) \<and>
       characters (vals r') \<noteq> None \<and> theme (vals r') \<noteq> None \<and>
       screenplay (vals r') \<noteq> None \<and> market_analysis (vals r') \<noteq> None \<and>
       (\<exists>d. director_notes (vals r') = Some [d]) \<and>
       (\<exists>k. critic_feedback (vals r') = Some [k])"
      by simp
  qed
  have indep: "\<forall>cs t sp ma dn cf.
       resume L w
         (r\<lparr>vals := (vals r)\<lparr>characters := cs, theme := t, screenplay := sp,
              market_analysis := ma, director_notes := dn, critic_feedback := cf\<rparr>\<rparr>) f
       = resume L w r f"
  proof (intro allI)
    fix cs t sp ma dn cf
    let ?r' = "r\<lparr>vals := (vals r)\<lparr>characters := cs, theme := t, screenplay := sp,
              market_analysis := ma, director_notes := dn, critic_feedback := cf\<rparr>\<rparr>"
    have st: "status ?r' = Interrupted Handle_user_feedback" using assms(1) by simp
    have "resume L w ?r' f =
      run_from L Create_characters w
        (?r1\<lparr>vals := (vals ?r1)\<lparr>characters := cs, theme := t, screenplay := sp,
              market_analysis := ma, director_notes := dn, critic_feedback := cf\<rparr>\<rparr>)"
      by (simp add: resume_at_router [OF st] route merge_state_def no_update_def
          last_value_def operator_add_def)
    also have "\<dots> = run_from L Create_characters w ?r1"
      by (rule pass_from_characters_indep)
    finally show "resume L w ?r' f = resume L w r f" by (simp add: res)
  qed
  from total result indep show ?thesis by blast
qed

theorem resume_character_feedback_witness:
  "\<exists>r0 w0 r1 w1.
     invoke stub_llm 0 (initial_state ''chef'') = Inr (r0, w0) \<and>
     status r0 = Interrupted Handle_user_feedback \<and>
     resume stub_llm w0 r0 ''Make the Characters deeper'' = Inr (r1, w1) \<and>
     executed r1 = executed r0 @ [Handle_user_feedback, Create_characters, Develop_theme,
         Write_screenplay, Director_review, Critic_review, Market_analysis] \<and>
     plot (vals r1) = plot (vals r0)"
proof -
  let ?f = "''Make the Characters deeper''"
  obtain r0 w0 where a: "invoke stub_llm 0 (initial_state ''chef'') = Inr (r0, w0)"
    using invoke_total [OF reliable_stub_llm] by blast
  note r0 = invoke_result [OF a]
  have l: "lower ?f = ''make the characters deeper''" by code_simp
  have h2: "\<exists>a b. lower ?f = a @ ''character'' @ b"
    unfolding l py_in_iff [symmetric] by simp
  have h3: "\<not> (\<exists>a b. lower ?f = a @ ''plot'' @ b)"
    unfolding l py_in_iff [symmetric] by simp
  from r0 have h1: "status r0 = Interrupted Handle_user_feedback" by simp
  note t = resume_character_feedback [OF h1 h2 h3, of stub_llm w0]
  from t r0 reliable_stub_llm obtain r1 w1
    where b: "resume stub_llm w0 r0 ?f = Inr (r1, w1)" by blast
  with t have "executed r1 = executed r0 @ [Handle_user_feedback, Create_characters,
      Develop_theme, Write_screenplay, Director_review, Critic_review, Market_analysis]
    \<and> plot (vals r1) = plot (vals r0)" by blast
  with a h1 b show ?thesis by blast
qed


subsection \<open>The face match\<close>

text \<open>
  Claim C6. \<open>SelfieAuth\<close> does not return a single boolean when a face is found in each
  image: it returns the list \<open>compare_faces\<close> gave for the one-entry list of the first
  encoding and the second encoding. For two pictures of different faces that list is
  \<open>[False]\<close>, which Python takes for true, while the path for a picture without a face
  returns the plain \<open>False\<close>.
\<close>

theorem selfie_auth_returns_list:
  "SelfieAuth stub_fr ''me.jpg'' ''you.jpg'' = Inr (PyList [False]) \<and>
   SelfieAuth stub_fr ''me.jpg'' ''me.jpg'' = Inr (PyList [True]) \<and>
   SelfieAuth stub_fr ''landscape.jpg'' ''me.jpg'' = Inr (PyBool False) \<and>
   SelfieAuth stub_fr ''me.jpg'' ''landscape.jpg'' = Inr (PyBool False)"
  by (simp add: SelfieAuth_def first_encoding_def stub_fr_def ShowPic_def)

text \<open>
  Claim C10, as amended. The handler around the two encodings is not specific to a
  missing face: an exception of any class under \<open>Exception\<close> raised while the first
  encoding is computed, or the second, is caught; the handler prints it, shows the new
  picture and then returns \<open>False\<close>, unless printing or showing the picture raises, and
  then that exception reaches the caller. An exception of a class outside \<open>Exception\<close>
  raised while an encoding is computed is not caught. An exception raised while either
  image is loaded, or by the final comparison, reaches the caller.
\<close>

theorem selfie_auth_exceptions:
  "(\<forall>e. load_image_file fr auth_image = Inl e \<longrightarrow>
       SelfieAuth fr auth_image new_image = Inl e) \<and>
   (\<forall>a e. load_image_file fr auth_image = Inr a \<longrightarrow> load_image_file fr new_image = Inl e \<longrightarrow>
       SelfieAuth fr auth_image new_image = Inl e) \<and>
   (\<forall>a b e. load_image_file fr auth_image = Inr a \<longrightarrow> load_image_file fr new_image = Inr b \<longrightarrow>
       (face_encodings fr a = Inl e \<or>
        (\<exists>x xs. face_encodings fr a = Inr (x # xs) \<and> face_encodings fr b = Inl e)) \<longrightarrow>
       SelfieAuth fr auth_image new_image =
         (if is_Exception e then
            (case print_error fr e of
               Some e' \<Rightarrow> Inl e'
             | None \<Rightarrow>
                 (case ShowPic fr new_image of
                    Some e' \<Rightarrow> Inl e'
                  | None \<Rightarrow> Inr (PyBool False)))
          else Inl e)) \<and>
   (\<forall>a b. load_image_file fr auth_image = Inr a \<longrightarrow> load_image_file fr new_image = Inr b \<longrightarrow>
       (face_encodings fr a = Inr [] \<or>
        (\<exists>x xs. face_encodings fr a = Inr (x # xs) \<and> face_encodings fr b = Inr [])) \<longrightarrow>
       SelfieAuth fr auth_image new_image =
         (case print_error fr IndexError of
            Some e' \<Rightarrow> Inl e'
          | None \<Rightarrow>
              (case ShowPic fr new_image of
                 Some e' \<Rightarrow> Inl e'
               | None \<Rightarrow> Inr (PyBool False)))) \<and>
   (\<forall>a b x xs y ys e. load_image_file fr auth_image = Inr a \<longrightarrow>
       load_image_file fr new_image = Inr b \<longrightarrow>
       face_encodings fr a = Inr (x # xs) \<longrightarrow> face_encodings fr b = Inr (y # ys) \<longrightarrow>
       compare_faces fr [x] y = Inl e \<longrightarrow>
       SelfieAuth fr auth_image new_image = Inl e)"
  by (auto simp: SelfieAuth_def first_encoding_def split: sum.splits list.splits)

theorem selfie_auth_exceptions_witness:
  "SelfieAuth stub_fr ''missing.jpg'' ''me.jpg'' = Inl (OtherException ''FileNotFoundError'') \<and>
   SelfieAuth stub_fr ''me.jpg'' ''missing.jpg'' = Inl (OtherException ''FileNotFoundError'') \<and>
   SelfieAuth stub_fr ''corrupt.jpg'' ''me.jpg'' = Inr (PyBool False) \<and>
   SelfieAuth stub_fr ''me.jpg'' ''corrupt.jpg'' = Inr (PyBool False) \<and>
   SelfieAuth stub_fr ''me.jpg'' ''landscape.jpg'' = Inr (PyBool False) \<and>
   SelfieAuth stub_fr ''me.jpg'' ''nan.jpg'' = Inl (OtherException ''ValueError'')"
  using selfie_auth_exceptions [of stub_fr "''missing.jpg''" "''me.jpg''"]
    selfie_auth_exceptions [of stub_fr "''me.jpg''" "''missing.jpg''"]
    selfie_auth_exceptions [of stub_fr "''corrupt.jpg''" "''me.jpg''"]
    selfie_auth_exceptions [of stub_fr "''me.jpg''" "''corrupt.jpg''"]
    selfie_auth_exceptions [of stub_fr "''me.jpg''" "''landscape.jpg''"]
    selfie_auth_exceptions [of stub_fr "''me.jpg''" "''nan.jpg''"]
  by (simp add: stub_fr_def ShowPic_def)

text \<open>
  The claim as stated fails in three ways. The encoder raises a \<open>RuntimeError\<close> on
  \<open>corrupt.jpg\<close>; the handler catches it and shows the new picture \<open>anim.gif\<close>, which
  \<open>cv2.imread\<close> cannot read, so \<open>imshow\<close> raises a \<open>TypeError\<close> and this, not \<open>False\<close>, is
  the outcome. The encoder raises a \<open>MemoryError\<close> on \<open>huge.jpg\<close>; the handler catches
  it, and printing it fails with a \<open>BrokenPipeError\<close>, which is the outcome. On
  \<open>slow.jpg\<close> the encoder is interrupted from the keyboard, and the
  \<open>KeyboardInterrupt\<close> is not caught.
\<close>

theorem selfie_auth_handler_raises:
  "face_encodings stub_fr ''corrupt.jpg'' = Inl (OtherException ''RuntimeError'') \<and>
   SelfieAuth stub_fr ''corrupt.jpg'' ''anim.gif'' = Inl (OtherException ''TypeError'') \<and>
   face_encodings stub_fr ''huge.jpg'' = Inl (OtherException ''MemoryError'') \<and>
   SelfieAuth stub_fr ''huge.jpg'' ''me.jpg'' = Inl (OtherException ''BrokenPipeError'') \<and>
   face_encodings stub_fr ''slow.jpg'' = Inl (NonException ''KeyboardInterrupt'') \<and>
   SelfieAuth stub_fr ''slow.jpg'' ''me.jpg'' = Inl (NonException ''KeyboardInterrupt'')"
  by (simp add: SelfieAuth_def first_encoding_def stub_fr_def ShowPic_def)

subsection \<open>The target size of the thumbnails\<close>

lemma round_half_even_of_int: "round_half_even (of_int n) = n"
  by (simp add: round_half_even_def)

lemma exponent_le:
  assumes "0 < x"
  shows "2 powi (exponent x) \<le> x"
proof -
  obtain a b where q: "quotient_of x = (a, b)" by (cases "quotient_of x")
  then have b: "0 < b" and x: "x = of_int a / of_int b"
    using quotient_of_denom_pos quotient_of_div by blast+
  from assms x b have a: "0 < a"
    by (simp add: zero_less_divide_iff)
  let ?d = "bitlen a - bitlen b"
  show ?thesis
  proof (cases "2 powi ?d \<le> x")
    case True
    then show ?thesis by (simp add: exponent_def q)
  next
    case False
    from bitlen_bounds [OF a] have la: "(2::int) ^ nat (bitlen a - 1) \<le> a" by simp
    from bitlen_bounds [OF b] have ub: "b < (2::int) ^ nat (bitlen b)" by simp
    have ba: "1 \<le> bitlen a" using a by (simp add: bitlen_alt_def)
    have bb: "1 \<le> bitlen b" using b by (simp add: bitlen_alt_def)
    have la': "(2::rat) powi (bitlen a - 1) \<le> of_int a"
    proof -
      have "(of_int ((2::int) ^ nat (bitlen a - 1)) :: rat) \<le> of_int a"
        using la by (simp only: of_int_le_iff)
      moreover have "(2::rat) powi (bitlen a - 1) = 2 ^ nat (bitlen a - 1)"
        using ba by (simp add: power_int_def)
      ultimately show ?thesis by simp
    qed
    have ub': "(of_int b :: rat) \<le> 2 powi (bitlen b)"
    proof -
      have "(of_int b :: rat) < of_int ((2::int) ^ nat (bitlen b))"
        using ub by (simp only: of_int_less_iff)
      moreover have "(2::rat) powi (bitlen b) = 2 ^ nat (bitlen b)"
        using bb by (simp add: power_int_def)
      ultimately show ?thesis by simp
    qed
    have "(2::rat) powi (?d - 1) = 2 powi (bitlen a - 1) / 2 powi (bitlen b)"
      by (simp add: power_int_diff)
    also have "\<dots> \<le> of_int a / 2 powi (bitlen b)"
      using la' by (simp add: divide_right_mono)
    also have "\<dots> \<le> of_int a / of_int b"
      using ub' a b by (simp add: divide_left_mono)
    finally have "(2::rat) powi (?d - 1) \<le> x" by (simp only: x)
    moreover have "exponent x = ?d - 1" using False by (simp add: exponent_def q)
    ultimately show ?thesis by simp
  qed
qed

lemma exponent_less:
  assumes "0 < x" and "x < 2 powi k"
  shows "exponent x < k"
proof (rule ccontr)
  assume "\<not> exponent x < k"
  then have "k \<le> exponent x" by simp
  then have "(2::rat) powi k \<le> 2 powi (exponent x)"
    by (simp add: power_int_increasing)
  with exponent_le [OF assms(1)] assms(2) show False by simp
qed

lemma round_double_half:
  assumes "0 < W" and "W < 2 ^ 53"
  shows "round_double (of_int W / 2) = of_int W / 2"
proof -
  let ?x = "of_int W / 2 :: rat"
  have pos: "0 < ?x" using assms(1) by simp
  have "?x < 2 ^ 52"
  proof -
    have "(of_int W :: rat) < of_int (2 ^ 53)" using assms(2) by (simp only: of_int_less_iff)
    then show ?thesis by simp
  qed
  then have "?x < 2 powi 52" by simp
  from exponent_less [OF pos this] have e: "exponent ?x < 52" .
  define e where "e = max (exponent ?x) (- 1022)"
  have eb: "e \<le> 51" using e by (simp add: e_def)
  define k where "k = nat (51 - e)"
  have k: "int k = 51 - e" using eb by (simp add: k_def)
  have ulp: "(2::rat) powi (e - 52) = 1 / (2 * 2 ^ k)"
  proof -
    have "e - 52 = - int (Suc k)" using k by simp
    then have "(2::rat) powi (e - 52) = 2 powi (- int (Suc k))" by simp
    also have "\<dots> = inverse (2 ^ Suc k)" by (simp only: power_int_minus power_int_of_nat)
    finally show ?thesis by (simp add: field_simps)
  qed
  have q: "?x / (2 powi (e - 52)) = of_int (W * 2 ^ k)"
    by (simp add: ulp)
  have "round_double ?x = of_int (round_half_even (?x / 2 powi (e - 52))) * 2 powi (e - 52)"
    using pos by (simp add: round_double_def Let_def e_def abs_of_pos)
  also have "\<dots> = of_int (W * 2 ^ k) * 2 powi (e - 52)"
    by (simp only: q round_half_even_of_int)
  also have "\<dots> = of_int (W * 2 ^ k) * (1 / (2 * 2 ^ k))"
    by (simp only: ulp)
  also have "\<dots> = ?x" by simp
  finally show ?thesis .
qed

lemma truediv_half:
  assumes "0 < W" and "W < 2 ^ 53"
  shows "truediv W 2 = Inr (of_int W / 2)" and "truediv (W * 50) 100 = Inr (of_int W / 2)"
proof -
  have lt: "\<bar>of_int W / 2 :: rat\<bar> < 2 powi 1024"
  proof -
    have "(of_int W :: rat) < of_int (2 ^ 53)" using assms(2) by (simp only: of_int_less_iff)
    then have "(of_int W / 2 :: rat) < 2 ^ 52" by simp
    also have "\<dots> \<le> 2 ^ 1024" by (rule power_increasing) simp_all
    finally show ?thesis using assms(1) by simp
  qed
  show "truediv W 2 = Inr (of_int W / 2)"
    using lt by (simp add: truediv_def round_double_half [OF assms] Let_def)
  have eq: "(of_int (W * 50) / of_int 100 :: rat) = of_int W / 2" by simp
  show "truediv (W * 50) 100 = Inr (of_int W / 2)"
    unfolding truediv_def eq round_double_half [OF assms] Let_def using lt by simp
qed

lemma py_int_half: "0 < W \<Longrightarrow> py_int (of_int W / 2) = W div 2"
proof -
  assume "0 < W"
  have "\<lfloor>of_int W / of_int 2 :: rat\<rfloor> = W div 2" by (rule floor_divide_of_int_eq)
  then show ?thesis using \<open>0 < W\<close> by (simp add: py_int_def)
qed

lemma dims_exact:
  assumes "0 < W" and "W < 2 ^ 53" and "0 < H" and "H < 2 ^ 53"
  shows "reformat_dim (H, W) = Inr (W div 2, H div 2)"
    and "resize_dim (H, W) = Inr (W div 2, H div 2)"
  using assms
  by (simp_all add: reformat_dim_def resize_dim_def scale_percent_def truediv_half
      py_int_half Let_def)

lemma dim57: "reformat_dim (5, 7) = Inr (3, 2)"
  using dims_exact(1) [of 7 5] by simp

lemma resize_dim_ex: "resize_dim (5, 7) = Inr (3, 2)"
  using dims_exact(2) [of 7 5] by simp

lemma resize_calls:
  assumes "\<forall>cs' c. raises env cs' c = None"
    and "imread_shape env (cs @ [Imread f]) f = Some shape"
    and "resize_dim shape = Inr (w, h)"
  shows "resize env cs f = (cs @ [Imread f, Print, Resize w h, Imwrite f, Print], Inr f)"
  using assms by (simp add: resize_def then_do_def do_call_def)

text \<open>
  Claim C7. For an image of width \<open>W\<close> and height \<open>H\<close>, both positive, both scripts ask
  for a thumbnail of width \<open>W div 2\<close> and height \<open>H div 2\<close>, the halves rounded down:
  \<open>int(W * 50 / 100)\<close> in \<open>reformat_image\<close> and \<open>int(W / 2)\<close> in \<open>resize\<close>, and the same for
  the height; these are the sizes passed to \<open>cv2.resize\<close>. The division is the floating
  point one. It is exact for every dimension below \<open>2 ^ 53\<close>, the bound under which every
  half of an integer is a double; the dimensions of an image held in memory are far
  below it.
\<close>

theorem resize_target_dims:
  assumes "0 < W" and "W < 2 ^ 53" and "0 < H" and "H < 2 ^ 53"
  shows "reformat_dim (H, W) = Inr (W div 2, H div 2) \<and>
         resize_dim (H, W) = Inr (W div 2, H div 2) \<and>
         (\<exists>calls. reformat_image environ temp_file_name (H, W) file = Inr calls \<and>
            Resize (W div 2) (H div 2) \<in> set calls) \<and>
         ((\<forall>cs' c. raises env cs' c = None) \<longrightarrow>
          imread_shape env (cs @ [Imread f]) f = Some (H, W) \<longrightarrow>
          resize env cs f =
            (cs @ [Imread f, Print, Resize (W div 2) (H div 2), Imwrite f, Print], Inr f))"
  using dims_exact [OF assms] resize_calls [of env cs f "(H, W)" "W div 2" "H div 2"]
  by (simp add: reformat_image_def Let_def)

theorem resize_target_dims_witness:
  "reformat_dim (1080, 1921) = Inr (960, 540) \<and> resize_dim (1080, 1921) = Inr (960, 540) \<and>
   reformat_dim (5, 7) = Inr (3, 2) \<and>
   resize stub_cloud [] ''/tmp/tmpq1.png'' =
     ([Imread ''/tmp/tmpq1.png'', Print, Resize 3 2, Imwrite ''/tmp/tmpq1.png'', Print],
      Inr ''/tmp/tmpq1.png'')"
  using resize_target_dims [of 1921 1080 Map.empty "[]" "\<lparr>bucket = [], name = []\<rparr>"
      stub_cloud "[]" "[]"]
    resize_target_dims [of 7 5 Map.empty "[]" "\<lparr>bucket = [], name = []\<rparr>"
      stub_cloud "[]" "''/tmp/tmpq1.png''"]
  by (simp add: stub_cloud_def)

subsection \<open>The thumbnail prefix of FRT3.py\<close>

lemma rfind_notin: "c \<notin> set s \<Longrightarrow> rfind s c = - 1"
  by (induction s) (auto simp: Let_def)

lemma rfind_ge: "- 1 \<le> rfind s c"
  by (induction s) (auto simp: Let_def)

lemma rfind_append_notin: "c \<notin> set t \<Longrightarrow> rfind (s @ c # t) c = int (length s)"
  by (induction s) (auto simp: Let_def rfind_notin)

lemma rfind_tail: "c \<notin> set (drop (nat (rfind s c + 1)) s)"
proof (induction s)
  case Nil
  then show ?case by simp
next
  case (Cons x xs)
  show ?case
  proof (cases "0 \<le> rfind xs c")
    case True
    then have "nat (rfind (x # xs) c + 1) = Suc (nat (rfind xs c + 1))"
      by (simp add: Let_def nat_add_distrib)
    then show ?thesis using Cons.IH by simp
  next
    case False
    with rfind_ge [of xs c] have r: "rfind xs c = - 1" by linarith
    with Cons.IH have "c \<notin> set xs" by simp
    then show ?thesis using r by (auto simp: Let_def)
  qed
qed

lemma rstrip_last: "rstrip s c = [] \<or> last (rstrip s c) \<noteq> c"
proof (cases "dropWhile (\<lambda>x. x = c) (rev s)")
  case Nil
  then show ?thesis by (simp add: rstrip_def)
next
  case (Cons y ys)
  then have "y \<noteq> c" using hd_dropWhile [of "\<lambda>x. x = c" "rev s"] by auto
  then show ?thesis using Cons by (simp add: rstrip_def)
qed

lemma rstrip_snoc: "d \<noteq> [] \<Longrightarrow> last d \<noteq> c \<Longrightarrow> rstrip (d @ [c]) c = d"
  by (cases d rule: rev_cases) (auto simp: rstrip_def)

lemma split_tail_no_sep: "sep \<notin> set (snd (os_path_split p))"
  by (simp add: os_path_split_def Let_def rfind_tail)

lemma split_head_shape:
  "fst (os_path_split p) = [] \<or>
   fst (os_path_split p) = replicate (length (fst (os_path_split p))) sep \<or>
   last (fst (os_path_split p)) \<noteq> sep"
  using rstrip_last [of "take (nat (rfind p sep + 1)) p" sep]
  by (auto simp: os_path_split_def Let_def)

lemma split_at:
  assumes "rfind p sep + 1 = int i" and "take i p = h" and "drop i p = t"
  shows "os_path_split p =
    (if h \<noteq> [] \<and> h \<noteq> replicate (length h) sep then rstrip h sep else h, t)"
proof -
  have n: "nat (rfind p sep + 1) = i" using assms(1) by simp
  show ?thesis
    unfolding os_path_split_def Let_def n assms(2,3) by (rule refl)
qed

lemma split_join:
  assumes t: "sep \<notin> set t" "t \<noteq> []"
    and d: "d = [] \<or> d = replicate (length d) sep \<or> last d \<noteq> sep"
  shows "os_path_split (os_path_join d t) = (d, t)"
proof -
  have st: "\<not> startswith t [sep]" using t by (cases t) auto
  show ?thesis
  proof (cases "d = []")
    case True
    have "rfind t sep + 1 = int 0" using t by (simp add: rfind_notin)
    from split_at [OF this, of "[]" t] True st show ?thesis
      by (simp add: os_path_join_def)
  next
    case False
    show ?thesis
    proof (cases "last d = sep")
      case True
      with d False have all: "d = replicate (length d) sep" by blast
      from False True obtain d' where d': "d = d' @ [sep]"
        by (metis append_butlast_last_id)
      have j: "os_path_join d t = d' @ sep # t"
        using False True st d' by (simp add: os_path_join_def)
      have r: "rfind (d' @ sep # t) sep + 1 = int (length d)"
        using t d' by (simp add: rfind_append_notin)
      have "take (length d) (d' @ sep # t) = d" "drop (length d) (d' @ sep # t) = t"
        using d' by simp_all
      from split_at [OF r this] all show ?thesis
        unfolding j by presburger
    next
      case l: False
      have j: "os_path_join d t = d @ sep # t"
        using False l st by (simp add: os_path_join_def)
      have r: "rfind (d @ sep # t) sep + 1 = int (Suc (length d))"
        using t by (simp add: rfind_append_notin)
      have td: "take (Suc (length d)) (d @ sep # t) = d @ [sep]"
        "drop (Suc (length d)) (d @ sep # t) = t"
        by simp_all
      have ne: "d @ [sep] \<noteq> replicate (length (d @ [sep])) sep"
      proof
        assume "d @ [sep] = replicate (length (d @ [sep])) sep"
        then have "set (d @ [sep]) \<subseteq> {sep}"
          by (metis set_replicate_conv_if subset_refl empty_subsetI)
        moreover have "last d \<in> set (d @ [sep])" using False by simp
        ultimately have "last d = sep" by blast
        with l show False by simp
      qed
      have "d @ [sep] \<noteq> []" by simp
      with split_at [OF r td] ne rstrip_snoc [OF False l] show ?thesis
        unfolding j by presburger
    qed
  qed
qed


lemma prefix_no_sep: "sep \<notin> set NEW_FILE_PREFIX"
  by (simp add: NEW_FILE_PREFIX_def sep_def)

text \<open>
  Claim C8, as amended. Let the object name split into the directory \<open>dir\<close> and the file
  name \<open>base\<close>. If \<open>base\<close> starts with \<open>thumbnail_\<close>, \<open>main\<close> prints a message and returns:
  nothing is downloaded, resized or uploaded. Otherwise, when no call raises and the
  downloaded file is an image that \<open>cv2.imread\<close> can read (of height \<open>H\<close> and width \<open>W\<close>),
  \<open>main\<close> downloads the object to a temporary file, resizes that file in place to the
  halves of \<open>W\<close> and \<open>H\<close>, uploads it under the name made of \<open>dir\<close> and \<open>thumbnail_\<close>
  followed by \<open>base\<close>, and removes the file. That name splits into the same directory
  \<open>dir\<close> and the file name \<open>thumbnail_\<close> followed by \<open>base\<close>.
\<close>

theorem main_thumbnail:
  assumes "os_path_split (name event) = (dir, base)"
  shows
   "((\<exists>r. base = ''thumbnail_'' @ r) \<longrightarrow> fst (main env event) = [Print]) \<and>
    (\<not> (\<exists>r. base = ''thumbnail_'' @ r) \<longrightarrow>
       (\<forall>ext tmp H W.
          (\<forall>cs c. raises env cs c = None) \<longrightarrow>
          ext = snd (os_path_splitext (name event)) \<longrightarrow>
          tmp = mkstemp_name env [Mkstemp ext] ext \<longrightarrow>
          imread_shape env
            [Mkstemp ext, Download_to_filename (bucket event) (name event) tmp, Print,
             Imread tmp] tmp = Some (H, W) \<longrightarrow>
          0 < W \<longrightarrow> W < 2 ^ 53 \<longrightarrow> 0 < H \<longrightarrow> H < 2 ^ 53 \<longrightarrow>
          main env event =
            ([Mkstemp ext,
              Download_to_filename (bucket event) (name event) tmp, Print,
              Imread tmp, Print, Resize (W div 2) (H div 2), Imwrite tmp, Print,
              Upload_from_filename (bucket event)
                (os_path_join dir (''thumbnail_'' @ base)) tmp, Print,
              Remove tmp], Inr ()))) \<and>
    os_path_split (os_path_join dir (''thumbnail_'' @ base)) = (dir, ''thumbnail_'' @ base)"
proof (intro conjI impI allI)
  assume "\<exists>r. base = ''thumbnail_'' @ r"
  then have "startswith base NEW_FILE_PREFIX"
    by (simp add: startswith_iff NEW_FILE_PREFIX_def)
  then show "fst (main env event) = [Print]"
    using assms(1) by (simp add: main_def do_call_def)
next
  fix ext tmp H W
  assume ng: "\<not> (\<exists>r. base = ''thumbnail_'' @ r)"
    and nr: "\<forall>cs c. raises env cs c = None"
    and ext: "ext = snd (os_path_splitext (name event))"
    and tmp: "tmp = mkstemp_name env [Mkstemp ext] ext"
    and sh: "imread_shape env
            [Mkstemp ext, Download_to_filename (bucket event) (name event) tmp, Print,
             Imread tmp] tmp = Some (H, W)"
    and b: "0 < W" "W < 2 ^ 53" "0 < H" "H < 2 ^ 53"
  define w where "w = W div 2"
  define h where "h = H div 2"
  have rd: "resize_dim (H, W) = Inr (w, h)"
    using dims_exact(2) [OF b] by (simp add: w_def h_def)
  have g: "\<not> startswith base NEW_FILE_PREFIX"
    using ng by (simp add: startswith_iff NEW_FILE_PREFIX_def)
  let ?d = "[Mkstemp ext, Download_to_filename (bucket event) (name event) tmp, Print]"
  let ?r = "[Mkstemp ext, Download_to_filename (bucket event) (name event) tmp, Print,
             Imread tmp, Print, Resize w h, Imwrite tmp, Print]"
  let ?u = "[Mkstemp ext, Download_to_filename (bucket event) (name event) tmp, Print,
             Imread tmp, Print, Resize w h, Imwrite tmp, Print,
             Upload_from_filename (bucket event)
               (os_path_join dir (''thumbnail_'' @ base)) tmp, Print]"
  have d: "download env [] (bucket event) (name event) = (?d, Inr tmp)"
    using nr ext tmp by (simp add: download_def then_do_def do_call_def Let_def)
  have r: "resize env ?d tmp = (?r, Inr tmp)"
    using resize_calls [of env ?d tmp "(H, W)" w h] nr sh rd by simp
  have u: "upload env ?r (bucket event) (name event) tmp = (?u, Inr ())"
    using nr assms(1)
    by (simp add: upload_def then_do_def do_call_def Let_def NEW_FILE_PREFIX_def)
  have "main env event =
      then_do (download env [] (bucket event) (name event)) (\<lambda>cs file_name.
      then_do (resize env cs file_name) (\<lambda>cs _.
      then_do (upload env cs (bucket event) (name event) file_name) (\<lambda>cs _.
      do_call env (Remove file_name) cs)))"
    using g assms(1) by (simp add: main_def)
  also have "\<dots> = then_do (resize env ?d tmp) (\<lambda>cs _.
      then_do (upload env cs (bucket event) (name event) tmp) (\<lambda>cs _.
      do_call env (Remove tmp) cs))"
    by (simp only: d then_do_def prod.case sum.case)
  also have "\<dots> = then_do (upload env ?r (bucket event) (name event) tmp) (\<lambda>cs _.
      do_call env (Remove tmp) cs)"
    by (simp only: r then_do_def prod.case sum.case)
  also have "\<dots> = do_call env (Remove tmp) ?u"
    by (simp only: u then_do_def prod.case sum.case)
  also have "\<dots> = (?u @ [Remove tmp], Inr ())"
    using nr by (simp add: do_call_def)
  finally show "main env event =
            ([Mkstemp ext,
              Download_to_filename (bucket event) (name event) tmp, Print,
              Imread tmp, Print, Resize (W div 2) (H div 2), Imwrite tmp, Print,
              Upload_from_filename (bucket event)
                (os_path_join dir (''thumbnail_'' @ base)) tmp, Print,
              Remove tmp], Inr ())"
    by (simp add: w_def h_def)
next
  have "sep \<notin> set base" using split_tail_no_sep [of "name event"] assms(1) by simp
  then have t: "sep \<notin> set (''thumbnail_'' @ base)"
    using prefix_no_sep by (simp add: NEW_FILE_PREFIX_def)
  have d: "dir = [] \<or> dir = replicate (length dir) sep \<or> last dir \<noteq> sep"
    using split_head_shape [of "name event"] assms(1) by simp
  from split_join [OF t _ d]
  show "os_path_split (os_path_join dir (''thumbnail_'' @ base)) = (dir, ''thumbnail_'' @ base)"
    by simp
qed

lemma split_ex: "os_path_split ''photos/2024/cat.png'' = (''photos/2024'', ''cat.png'')"
  by code_simp

lemma split_ex2:
  "os_path_split ''photos/2024/thumbnail_cat.png'' = (''photos/2024'', ''thumbnail_cat.png'')"
  by code_simp

lemma splitext_ex: "snd (os_path_splitext ''photos/2024/cat.png'') = ''.png''"
  by code_simp

lemma join_ex:
  "os_path_join ''photos/2024'' ''thumbnail_cat.png'' = ''photos/2024/thumbnail_cat.png''"
  by code_simp

lemma split_ex3: "os_path_split ''docs/notes.txt'' = (''docs'', ''notes.txt'')"
  by code_simp

lemma splitext_ex3: "snd (os_path_splitext ''docs/notes.txt'') = ''.txt''"
  by code_simp

theorem main_thumbnail_witness:
  "fst (main stub_cloud \<lparr>bucket = ''uploads'', name = ''photos/2024/thumbnail_cat.png''\<rparr>)
     = [Print] \<and>
   main stub_cloud \<lparr>bucket = ''uploads'', name = ''photos/2024/cat.png''\<rparr> =
     ([Mkstemp ''.png'',
       Download_to_filename ''uploads'' ''photos/2024/cat.png'' ''/tmp/tmpq1.png'', Print,
       Imread ''/tmp/tmpq1.png'', Print, Resize 3 2, Imwrite ''/tmp/tmpq1.png'', Print,
       Upload_from_filename ''uploads'' ''photos/2024/thumbnail_cat.png'' ''/tmp/tmpq1.png'',
       Print,
       Remove ''/tmp/tmpq1.png''], Inr ())"
proof -
  have a: "\<exists>r. ''thumbnail_cat.png'' = ''thumbnail_'' @ r" by simp
  have b: "\<not> (\<exists>r. ''cat.png'' = ''thumbnail_'' @ r)" by simp
  from main_thumbnail [of "\<lparr>bucket = ''uploads'', name = ''photos/2024/thumbnail_cat.png''\<rparr>"
      "''photos/2024''" "''thumbnail_cat.png''" stub_cloud] a
  have 1: "fst (main stub_cloud \<lparr>bucket = ''uploads'', name = ''photos/2024/thumbnail_cat.png''\<rparr>)
     = [Print]"
    by (simp add: split_ex2)
  have nr: "\<forall>cs c. raises stub_cloud cs c = None" by (simp add: stub_cloud_def)
  have tn: "''/tmp/tmpq1.png'' = mkstemp_name stub_cloud [Mkstemp ''.png''] ''.png''"
    by (simp add: stub_cloud_def)
  have sh: "\<And>cs. imread_shape stub_cloud cs ''/tmp/tmpq1.png'' = Some (5, 7)"
    by (simp add: stub_cloud_def)
  have bd: "(0::int) < 7" "(7::int) < 2 ^ 53" "(0::int) < 5" "(5::int) < 2 ^ 53"
    by simp_all
  have sp: "os_path_split (name \<lparr>bucket = ''uploads'', name = ''photos/2024/cat.png''\<rparr>)
      = (''photos/2024'', ''cat.png'')"
    by (simp add: split_ex)
  have se: "''.png'' =
      snd (os_path_splitext (name \<lparr>bucket = ''uploads'', name = ''photos/2024/cat.png''\<rparr>))"
    by (simp add: splitext_ex)
  from main_thumbnail [OF sp, of stub_cloud] b nr se tn sh bd
  have "main stub_cloud \<lparr>bucket = ''uploads'', name = ''photos/2024/cat.png''\<rparr> =
     ([Mkstemp ''.png'',
       Download_to_filename
         (bucket \<lparr>bucket = ''uploads'', name = ''photos/2024/cat.png''\<rparr>)
         (name \<lparr>bucket = ''uploads'', name = ''photos/2024/cat.png''\<rparr>) ''/tmp/tmpq1.png'',
       Print,
       Imread ''/tmp/tmpq1.png'', Print, Resize (7 div 2) (5 div 2),
       Imwrite ''/tmp/tmpq1.png'', Print,
       Upload_from_filename
         (bucket \<lparr>bucket = ''uploads'', name = ''photos/2024/cat.png''\<rparr>)
         (os_path_join ''photos/2024'' (''thumbnail_'' @ ''cat.png'')) ''/tmp/tmpq1.png'',
       Print,
       Remove ''/tmp/tmpq1.png''], Inr ())"
    by blast
  then have 2: "main stub_cloud \<lparr>bucket = ''uploads'', name = ''photos/2024/cat.png''\<rparr> =
     ([Mkstemp ''.png'',
       Download_to_filename ''uploads'' ''photos/2024/cat.png'' ''/tmp/tmpq1.png'', Print,
       Imread ''/tmp/tmpq1.png'', Print, Resize 3 2, Imwrite ''/tmp/tmpq1.png'', Print,
       Upload_from_filename ''uploads'' ''photos/2024/thumbnail_cat.png'' ''/tmp/tmpq1.png'',
       Print,
       Remove ''/tmp/tmpq1.png''], Inr ())"
    using join_ex by simp
  from 1 2 show ?thesis by simp
qed

text \<open>
  The claim as stated fails for an object that is not an image: \<open>docs/notes.txt\<close> does
  not start with the prefix, it is downloaded, \<open>cv2.imread\<close> gives \<open>None\<close> for the file,
  \<open>img.shape\<close> raises an \<open>AttributeError\<close> and nothing is uploaded. It fails as well
  when a call raises: with the storage out of reach the download of
  \<open>photos/2024/cat.png\<close> raises and nothing is uploaded.
\<close>

theorem main_no_upload_for_non_image:
  "snd (os_path_split ''docs/notes.txt'') = ''notes.txt'' \<and>
   main stub_cloud \<lparr>bucket = ''uploads'', name = ''docs/notes.txt''\<rparr> =
     ([Mkstemp ''.txt'',
       Download_to_filename ''uploads'' ''docs/notes.txt'' ''/tmp/tmpq1.txt'', Print,
       Imread ''/tmp/tmpq1.txt''], Inl AttributeError) \<and>
   snd (os_path_split ''photos/2024/cat.png'') = ''cat.png'' \<and>
   main offline_cloud \<lparr>bucket = ''uploads'', name = ''photos/2024/cat.png''\<rparr> =
     ([Mkstemp ''.png'',
       Download_to_filename ''uploads'' ''photos/2024/cat.png'' ''/tmp/tmpq1.png''],
      Inl (CallError ''NotFound''))"
  by (simp add: main_def download_def resize_def then_do_def do_call_def Let_def
      split_ex split_ex3 splitext_ex splitext_ex3 stub_cloud_def offline_cloud_def
      NEW_FILE_PREFIX_def)

subsection \<open>The destination bucket of FRT2.py\<close>

text \<open>
  Claim C9. When \<open>PROCESSED_BUCKET_NAME\<close> is not set, the destination bucket name is the
  text \<open>Specified environment variable is not set.\<close>; the function goes on as usual
  (download, decode, resize, write) and then looks up a bucket of that name and uploads
  to it. The missing variable raises nothing where it is read.
\<close>

theorem placeholder_bucket:
  assumes "environ ''PROCESSED_BUCKET_NAME'' = None"
  shows "dest_bucket_name environ = ''Specified environment variable is not set.'' \<and>
    reformat_image environ temp_name shape file =
      (case reformat_dim shape of
         Inl e \<Rightarrow> Inl e
       | Inr (width, height) \<Rightarrow>
           Inr [Get_bucket (bucket file),
                Get_blob (bucket file) (name file),
                Download_as_string (bucket file) (name file),
                Imdecode,
                Resize width height,
                Imwrite (temp_name @ name file),
                Get_bucket ''Specified environment variable is not set.'',
                Upload_from_filename ''Specified environment variable is not set.''
                  (name file) (temp_name @ name file)])"
  using assms
  by (simp add: dest_bucket_name_def environ_get_def reformat_image_def Let_def
      split: sum.splits prod.splits)


theorem placeholder_bucket_witness:
  "reformat_image Map.empty ''/tmp/tmpab12'' (5, 7) \<lparr>bucket = ''uploads'', name = ''cat.png''\<rparr> =
     Inr [Get_bucket ''uploads'', Get_blob ''uploads'' ''cat.png'',
          Download_as_string ''uploads'' ''cat.png'', Imdecode, Resize 3 2,
          Imwrite ''/tmp/tmpab12cat.png'',
          Get_bucket ''Specified environment variable is not set.'',
          Upload_from_filename ''Specified environment variable is not set.''
            ''cat.png'' ''/tmp/tmpab12cat.png'']"
  using placeholder_bucket [of Map.empty "''/tmp/tmpab12''" "(5, 7)"
      "\<lparr>bucket = ''uploads'', name = ''cat.png''\<rparr>"]
  by (simp add: dim57)

end
